theory Spec2Isabelle
  imports Main "HOL-Library.Word"
begin

unbundle bit_operations_syntax

section \<open>Build targets\<close>

text \<open>
  x64ABI.cpp is compiled for one of four targets; the preprocessor symbols
  \<open>_M_X64\<close>, \<open>_M_IX86\<close> and \<open>_WIN32\<close> select the code of each. The file's own
  comments name the cases: the top of the file is ``shared code between Win64 and
  Unix64'', the branch \<open>#ifdef _M_IX86\<close> is ``All32'', its \<open>#else\<close> is ``64bit'',
  and inside it \<open>#ifdef _WIN32\<close> separates ``Win64 Specific Code'' from ``Unix64
  Specific Code''. So \<open>_M_X64\<close> holds on both 64-bit targets and \<open>_WIN32\<close> on both
  Windows targets.
\<close>

datatype abi = Win32 | Unix32 | Win64 | Unix64

fun M_X64 :: "abi \<Rightarrow> bool" where
  "M_X64 Win64 = True"
| "M_X64 Unix64 = True"
| "M_X64 _ = False"

fun M_IX86 :: "abi \<Rightarrow> bool" where
  "M_IX86 Win32 = True"
| "M_IX86 Unix32 = True"
| "M_IX86 _ = False"

fun WIN32 :: "abi \<Rightarrow> bool" where
  "WIN32 Win32 = True"
| "WIN32 Win64 = True"
| "WIN32 _ = False"

section \<open>Registers, operands and instructions\<close>

text \<open>
  \<open>X64Reg\<close> is an enumeration whose values are the hardware register numbers; the
  source casts loop counters to it (\<open>(X64Reg) r\<close>), which is the constructor here.
  The 32-bit names denote the same numbers as the 64-bit ones.
\<close>

datatype X64Reg = X64Reg nat

abbreviation RAX :: X64Reg where "RAX \<equiv> X64Reg 0"
abbreviation RCX :: X64Reg where "RCX \<equiv> X64Reg 1"
abbreviation RDX :: X64Reg where "RDX \<equiv> X64Reg 2"
abbreviation RBX :: X64Reg where "RBX \<equiv> X64Reg 3"
abbreviation RSP :: X64Reg where "RSP \<equiv> X64Reg 4"
abbreviation RBP :: X64Reg where "RBP \<equiv> X64Reg 5"
abbreviation RSI :: X64Reg where "RSI \<equiv> X64Reg 6"
abbreviation RDI :: X64Reg where "RDI \<equiv> X64Reg 7"
abbreviation R8 :: X64Reg where "R8 \<equiv> X64Reg 8"
abbreviation R9 :: X64Reg where "R9 \<equiv> X64Reg 9"
abbreviation R12 :: X64Reg where "R12 \<equiv> X64Reg 12"
abbreviation R13 :: X64Reg where "R13 \<equiv> X64Reg 13"
abbreviation R14 :: X64Reg where "R14 \<equiv> X64Reg 14"
abbreviation R15 :: X64Reg where "R15 \<equiv> X64Reg 15"
abbreviation (input) ESP :: X64Reg where "ESP \<equiv> X64Reg 4"
abbreviation (input) EBP :: X64Reg where "EBP \<equiv> X64Reg 5"
abbreviation (input) EBX :: X64Reg where "EBX \<equiv> X64Reg 3"
abbreviation (input) ESI :: X64Reg where "ESI \<equiv> X64Reg 6"
abbreviation (input) EDI :: X64Reg where "EDI \<equiv> X64Reg 7"

text \<open>
  Modelled from the spec: the macros \<open>ABI_PARAM1\<close> .. \<open>ABI_PARAM4\<close> are declared in
  x64ABI.h, which is not among the sources. The spec calls them the designated
  argument-register slots of the ABI; their values are the first four integer
  argument registers of the Windows 64-bit convention (RCX, RDX, R8, R9) and of
  the Unix 64-bit convention (RDI, RSI, RDX, RCX).
\<close>

fun ABI_PARAM1 :: "abi \<Rightarrow> X64Reg" where
  "ABI_PARAM1 Unix64 = RDI"
| "ABI_PARAM1 _ = RCX"

fun ABI_PARAM2 :: "abi \<Rightarrow> X64Reg" where
  "ABI_PARAM2 Unix64 = RSI"
| "ABI_PARAM2 _ = RDX"

fun ABI_PARAM3 :: "abi \<Rightarrow> X64Reg" where
  "ABI_PARAM3 Unix64 = RDX"
| "ABI_PARAM3 _ = R8"

fun ABI_PARAM4 :: "abi \<Rightarrow> X64Reg" where
  "ABI_PARAM4 Unix64 = RCX"
| "ABI_PARAM4 _ = R9"

text \<open>
  An operand as the emitter's constructors build it: \<open>R(reg)\<close>, \<open>Imm8(u8)\<close>,
  \<open>Imm16(u16)\<close>, \<open>Imm32(u32)\<close>, \<open>Imm64(u64)\<close> and \<open>MDisp(reg, offset)\<close>. The width of
  an immediate is the width of the constructor's parameter; where the source
  passes a wider value, C++ converts it (modulo \<open>2 ^ 8\<close> for \<open>Imm8\<close>), which the
  model writes as \<open>ucast\<close> or \<open>word_of_int\<close>.
\<close>

datatype OpArg =
    R X64Reg
  | Imm8 "8 word"
  | Imm16 "16 word"
  | Imm32 "32 word"
  | Imm64 "64 word"
  | MDisp X64Reg int

text \<open>
  One constructor for each emitter call of the file. \<open>PUSH\<close> and \<open>POP\<close> take a
  register, \<open>PUSH_bits\<close> is the overload \<open>PUSH(bits, arg)\<close>; \<open>MOVAPD_store\<close> is
  \<open>MOVAPD(OpArg, X64Reg)\<close> and \<open>MOVAPD_load\<close> is \<open>MOVAPD(X64Reg, OpArg)\<close>. A code
  address (\<open>void *\<close>) is a 64-bit word.
\<close>

datatype instr =
    PUSH X64Reg
  | PUSH_bits nat OpArg
  | POP X64Reg
  | SUB nat OpArg OpArg
  | ADD nat OpArg OpArg
  | MOV nat OpArg OpArg
  | MOVAPD_store OpArg X64Reg
  | MOVAPD_load X64Reg OpArg
  | CALL "64 word"
  | CALLptr OpArg

section \<open>The emitter\<close>

text \<open>
  The state of an \<open>XEmitter\<close>: the write pointer \<open>code\<close> and the instructions
  written so far, oldest first. The encoder (x64Emitter.cpp) is not among the
  sources; \<open>enc_size\<close> is the number of bytes it writes for an instruction, by
  which \<open>code\<close> advances. Nothing is assumed about it.
\<close>

record XEmitter =
  code :: "64 word"
  emitted :: "instr list"
  enc_size :: "instr \<Rightarrow> 64 word"

definition emit :: "instr \<Rightarrow> XEmitter \<Rightarrow> XEmitter" where
  "emit i s = s\<lparr>code := code s + enc_size s i, emitted := emitted s @ [i]\<rparr>"

section \<open>Frame alignment\<close>

definition ABI_GetAlignedFrameSize :: "abi \<Rightarrow> 32 word \<Rightarrow> bool \<Rightarrow> 32 word" where
  "ABI_GetAlignedFrameSize abi frameSize noProlog =
     (if M_X64 abi then (if noProlog then 0x28 else 0)
      else if WIN32 abi then (frameSize + 3) AND (- 4)
      else
        let existingAlignment = (if noProlog then 0xc else 0);
            frameSize1 = frameSize - existingAlignment;
            frameSize2 = (frameSize1 + 15) AND (- 16)
        in frameSize2 + existingAlignment)"

definition ABI_AlignStack :: "abi \<Rightarrow> 32 word \<Rightarrow> bool \<Rightarrow> XEmitter \<Rightarrow> XEmitter" where
  "ABI_AlignStack abi frameSize noProlog s =
     (let fillSize = ABI_GetAlignedFrameSize abi frameSize noProlog - frameSize
      in if fillSize \<noteq> 0
         then (if M_X64 abi
               then emit (SUB 64 (R RSP) (Imm8 (ucast fillSize))) s
               else emit (SUB 32 (R ESP) (Imm8 (ucast fillSize))) s)
         else s)"

definition ABI_RestoreStack :: "abi \<Rightarrow> 32 word \<Rightarrow> bool \<Rightarrow> XEmitter \<Rightarrow> XEmitter" where
  "ABI_RestoreStack abi frameSize noProlog s =
     (let alignedSize = ABI_GetAlignedFrameSize abi frameSize noProlog
      in if alignedSize \<noteq> 0
         then (if M_X64 abi
               then emit (ADD 64 (R RSP) (Imm8 (ucast alignedSize))) s
               else emit (ADD 32 (R ESP) (Imm8 (ucast alignedSize))) s)
         else s)"


section \<open>Saving and restoring a register set\<close>

text \<open>
  The test \<open>mask & (1 << r)\<close> of the source, on the 32-bit register mask (written
  \<open>msk\<close>, since \<open>mask\<close> is a constant of the library).
\<close>

definition mask_bit :: "32 word \<Rightarrow> nat \<Rightarrow> bool" where
  "mask_bit msk r \<longleftrightarrow> msk AND push_bit r 1 \<noteq> 0"

text \<open>
  The bodies of the six \<open>for\<close> loops of the two functions, each as a step on the
  variables the loop changes. The loops run over \<open>0, 1, .., 15\<close>, the last one
  downwards. The counters are C \<open>int\<close>s and stay far from overflow.
\<close>

definition push_gpr_step :: "32 word \<Rightarrow> nat \<Rightarrow> XEmitter \<times> int \<Rightarrow> XEmitter \<times> int" where
  "push_gpr_step msk r = (\<lambda>(s, count).
     if mask_bit msk r then (emit (PUSH (X64Reg r)) s, count + 1) else (s, count))"

definition xmm_size_step :: "32 word \<Rightarrow> nat \<Rightarrow> int \<Rightarrow> int" where
  "xmm_size_step msk x sz = (if mask_bit msk (16 + x) then sz + 16 else sz)"

definition store_xmm_step :: "32 word \<Rightarrow> nat \<Rightarrow> XEmitter \<times> int \<Rightarrow> XEmitter \<times> int" where
  "store_xmm_step msk x = (\<lambda>(s, offset).
     if mask_bit msk (16 + x)
     then (emit (MOVAPD_store (MDisp RSP offset) (X64Reg x)) s, offset + 16)
     else (s, offset))"

definition load_xmm_step :: "32 word \<Rightarrow> nat \<Rightarrow> XEmitter \<times> int \<Rightarrow> XEmitter \<times> int" where
  "load_xmm_step msk x = (\<lambda>(s, size).
     if mask_bit msk (16 + x)
     then (emit (MOVAPD_load (X64Reg x) (MDisp RSP size)) s, size + 16)
     else (s, size))"

definition count_gpr_step :: "32 word \<Rightarrow> nat \<Rightarrow> int \<Rightarrow> int" where
  "count_gpr_step msk r count = (if mask_bit msk r then count + 1 else count)"

definition pop_gpr_step :: "32 word \<Rightarrow> nat \<Rightarrow> XEmitter \<Rightarrow> XEmitter" where
  "pop_gpr_step msk r s = (if mask_bit msk r then emit (POP (X64Reg r)) s else s)"

text \<open>
  The immediate operand of the stack adjustment:
  \<open>size >= 0x80 ? Imm32(size) : Imm8(size)\<close>, with the conversions of the \<open>int\<close>
  to \<open>u32\<close> and \<open>u8\<close> that the calls make.
\<close>

definition size_imm :: "int \<Rightarrow> OpArg" where
  "size_imm sz = (if sz \<ge> 0x80 then Imm32 (word_of_int sz) else Imm8 (word_of_int sz))"

definition ABI_PushRegistersAndAdjustStack :: "abi \<Rightarrow> 32 word \<Rightarrow> bool \<Rightarrow> XEmitter \<Rightarrow> XEmitter" where
  "ABI_PushRegistersAndAdjustStack abi msk noProlog s0 =
     (let regSize = (if M_X64 abi then 8 else 4) :: int;
          shadow = (if WIN32 abi \<and> M_X64 abi then 0x20 else 0) :: int;
          (s1, count) = fold (push_gpr_step msk) [0..<16] (s0, 0);
          size0 = ((if noProlog then - regSize else 0) - (count * regSize)) AND 0xf;
          size1 = fold (xmm_size_step msk) [0..<16] size0;
          size = size1 + shadow;
          s2 = (if size \<noteq> 0 then emit (SUB (nat (regSize * 8)) (R RSP) (size_imm size)) s1 else s1);
          offset = shadow;
          (s3, offset') = fold (store_xmm_step msk) [0..<16] (s2, offset)
      in s3)"

definition ABI_PopRegistersAndAdjustStack :: "abi \<Rightarrow> 32 word \<Rightarrow> bool \<Rightarrow> XEmitter \<Rightarrow> XEmitter" where
  "ABI_PopRegistersAndAdjustStack abi msk noProlog s0 =
     (let regSize = (if M_X64 abi then 8 else 4) :: int;
          size0 = (if WIN32 abi \<and> M_X64 abi then 0 + 0x20 else 0) :: int;
          (s1, size1) = fold (load_xmm_step msk) [0..<16] (s0, size0);
          count = fold (count_gpr_step msk) [0..<16] 0;
          size = size1 + (((if noProlog then - regSize else 0) - (count * regSize)) AND 0xf);
          s2 = (if size \<noteq> 0 then emit (ADD (nat (regSize * 8)) (R RSP) (size_imm size)) s1 else s1)
      in fold (pop_gpr_step msk) (rev [0..<16]) s2)"

section \<open>Call sites\<close>

text \<open>
  Every 64-bit emitter of a call ends with the same lines (272-280, 287-295, ..,
  481-489 of the file): the distance from the end of a near call written at
  \<open>code\<close> to the target, and a call through RAX when the distance does not fit
  the near call.
\<close>

definition call_near_or_far :: "64 word \<Rightarrow> XEmitter \<Rightarrow> XEmitter" where
  "call_near_or_far func s =
     (let distance = func - (code s + 5)
      in if distance \<ge> 0x0000000080000000 \<and> distance < 0xFFFFFFFF80000000
         then (let s = emit (MOV 64 (R RAX) (Imm64 func)) s
               in emit (CALLptr (R RAX)) s)
         else emit (CALL func) s)"

text \<open>
  The declarations of \<open>ABI_AlignStack\<close> and \<open>ABI_RestoreStack\<close> (x64Emitter.h, not
  among the sources) give \<open>noProlog\<close> a default value, which the emitters below
  use when they pass the frame size only. It is the parameter \<open>d\<close> of each of
  them, so that nothing depends on its value. A pointer argument is a 64-bit
  word, of which the 32-bit code keeps the low half (\<open>(u32)param\<close>).
\<close>

definition ABI_CallFunction :: "abi \<Rightarrow> bool \<Rightarrow> 64 word \<Rightarrow> XEmitter \<Rightarrow> XEmitter" where
  "ABI_CallFunction abi d func s =
     (if M_IX86 abi then
        (let s = ABI_AlignStack abi 0 d s;
             s = emit (CALL func) s
         in ABI_RestoreStack abi 0 d s)
      else
        (let s = ABI_AlignStack abi 0 d s;
             s = call_near_or_far func s
         in ABI_RestoreStack abi 0 d s))"

definition ABI_CallFunctionC16 :: "abi \<Rightarrow> bool \<Rightarrow> 64 word \<Rightarrow> 16 word \<Rightarrow> XEmitter \<Rightarrow> XEmitter" where
  "ABI_CallFunctionC16 abi d func param1 s =
     (if M_IX86 abi then
        (let s = ABI_AlignStack abi (1 * 2) d s;
             s = emit (PUSH_bits 16 (Imm16 param1)) s;
             s = emit (CALL func) s
         in ABI_RestoreStack abi (1 * 2) d s)
      else
        (let s = ABI_AlignStack abi 0 d s;
             s = emit (MOV 32 (R (ABI_PARAM1 abi)) (Imm32 (ucast param1))) s;
             s = call_near_or_far func s
         in ABI_RestoreStack abi 0 d s))"

definition ABI_CallFunctionCC16 :: "abi \<Rightarrow> bool \<Rightarrow> 64 word \<Rightarrow> 32 word \<Rightarrow> 16 word \<Rightarrow> XEmitter \<Rightarrow> XEmitter" where
  "ABI_CallFunctionCC16 abi d func param1 param2 s =
     (if M_IX86 abi then
        (let s = ABI_AlignStack abi (1 * 2 + 1 * 4) d s;
             s = emit (PUSH_bits 16 (Imm16 param2)) s;
             s = emit (PUSH_bits 32 (Imm32 param1)) s;
             s = emit (CALL func) s
         in ABI_RestoreStack abi (1 * 2 + 1 * 4) d s)
      else
        (let s = ABI_AlignStack abi 0 d s;
             s = emit (MOV 32 (R (ABI_PARAM1 abi)) (Imm32 param1)) s;
             s = emit (MOV 32 (R (ABI_PARAM2 abi)) (Imm32 (ucast param2))) s;
             s = call_near_or_far func s
         in ABI_RestoreStack abi 0 d s))"

definition ABI_CallFunctionC :: "abi \<Rightarrow> bool \<Rightarrow> 64 word \<Rightarrow> 32 word \<Rightarrow> XEmitter \<Rightarrow> XEmitter" where
  "ABI_CallFunctionC abi d func param1 s =
     (if M_IX86 abi then
        (let s = ABI_AlignStack abi (1 * 4) d s;
             s = emit (PUSH_bits 32 (Imm32 param1)) s;
             s = emit (CALL func) s
         in ABI_RestoreStack abi (1 * 4) d s)
      else
        (let s = ABI_AlignStack abi 0 d s;
             s = emit (MOV 32 (R (ABI_PARAM1 abi)) (Imm32 param1)) s;
             s = call_near_or_far func s
         in ABI_RestoreStack abi 0 d s))"

definition ABI_CallFunctionCC :: "abi \<Rightarrow> bool \<Rightarrow> 64 word \<Rightarrow> 32 word \<Rightarrow> 32 word \<Rightarrow> XEmitter \<Rightarrow> XEmitter" where
  "ABI_CallFunctionCC abi d func param1 param2 s =
     (if M_IX86 abi then
        (let s = ABI_AlignStack abi (2 * 4) d s;
             s = emit (PUSH_bits 32 (Imm32 param2)) s;
             s = emit (PUSH_bits 32 (Imm32 param1)) s;
             s = emit (CALL func) s
         in ABI_RestoreStack abi (2 * 4) d s)
      else
        (let s = ABI_AlignStack abi 0 d s;
             s = emit (MOV 32 (R (ABI_PARAM1 abi)) (Imm32 param1)) s;
             s = emit (MOV 32 (R (ABI_PARAM2 abi)) (Imm32 param2)) s;
             s = call_near_or_far func s
         in ABI_RestoreStack abi 0 d s))"

definition ABI_CallFunctionCCC :: "abi \<Rightarrow> bool \<Rightarrow> 64 word \<Rightarrow> 32 word \<Rightarrow> 32 word \<Rightarrow> 32 word \<Rightarrow> XEmitter \<Rightarrow> XEmitter" where
  "ABI_CallFunctionCCC abi d func param1 param2 param3 s =
     (if M_IX86 abi then
        (let s = ABI_AlignStack abi (3 * 4) d s;
             s = emit (PUSH_bits 32 (Imm32 param3)) s;
             s = emit (PUSH_bits 32 (Imm32 param2)) s;
             s = emit (PUSH_bits 32 (Imm32 param1)) s;
             s = emit (CALL func) s
         in ABI_RestoreStack abi (3 * 4) d s)
      else
        (let s = ABI_AlignStack abi 0 d s;
             s = emit (MOV 32 (R (ABI_PARAM1 abi)) (Imm32 param1)) s;
             s = emit (MOV 32 (R (ABI_PARAM2 abi)) (Imm32 param2)) s;
             s = emit (MOV 32 (R (ABI_PARAM3 abi)) (Imm32 param3)) s;
             s = call_near_or_far func s
         in ABI_RestoreStack abi 0 d s))"

definition ABI_CallFunctionCCP :: "abi \<Rightarrow> bool \<Rightarrow> 64 word \<Rightarrow> 32 word \<Rightarrow> 32 word \<Rightarrow> 64 word \<Rightarrow> XEmitter \<Rightarrow> XEmitter" where
  "ABI_CallFunctionCCP abi d func param1 param2 param3 s =
     (if M_IX86 abi then
        (let s = ABI_AlignStack abi (3 * 4) d s;
             s = emit (PUSH_bits 32 (Imm32 (ucast param3))) s;
             s = emit (PUSH_bits 32 (Imm32 param2)) s;
             s = emit (PUSH_bits 32 (Imm32 param1)) s;
             s = emit (CALL func) s
         in ABI_RestoreStack abi (3 * 4) d s)
      else
        (let s = ABI_AlignStack abi 0 d s;
             s = emit (MOV 32 (R (ABI_PARAM1 abi)) (Imm32 param1)) s;
             s = emit (MOV 32 (R (ABI_PARAM2 abi)) (Imm32 param2)) s;
             s = emit (MOV 64 (R (ABI_PARAM3 abi)) (Imm64 param3)) s;
             s = call_near_or_far func s
         in ABI_RestoreStack abi 0 d s))"

definition ABI_CallFunctionCCCP :: "abi \<Rightarrow> bool \<Rightarrow> 64 word \<Rightarrow> 32 word \<Rightarrow> 32 word \<Rightarrow> 32 word \<Rightarrow> 64 word \<Rightarrow> XEmitter \<Rightarrow> XEmitter" where
  "ABI_CallFunctionCCCP abi d func param1 param2 param3 param4 s =
     (if M_IX86 abi then
        (let s = ABI_AlignStack abi (4 * 4) d s;
             s = emit (PUSH_bits 32 (Imm32 (ucast param4))) s;
             s = emit (PUSH_bits 32 (Imm32 param3)) s;
             s = emit (PUSH_bits 32 (Imm32 param2)) s;
             s = emit (PUSH_bits 32 (Imm32 param1)) s;
             s = emit (CALL func) s
         in ABI_RestoreStack abi (4 * 4) d s)
      else
        (let s = ABI_AlignStack abi 0 d s;
             s = emit (MOV 32 (R (ABI_PARAM1 abi)) (Imm32 param1)) s;
             s = emit (MOV 32 (R (ABI_PARAM2 abi)) (Imm32 param2)) s;
             s = emit (MOV 32 (R (ABI_PARAM3 abi)) (Imm32 param3)) s;
             s = emit (MOV 64 (R (ABI_PARAM4 abi)) (Imm64 param4)) s;
             s = call_near_or_far func s
         in ABI_RestoreStack abi 0 d s))"

definition ABI_CallFunctionPPC :: "abi \<Rightarrow> bool \<Rightarrow> 64 word \<Rightarrow> 64 word \<Rightarrow> 64 word \<Rightarrow> 32 word \<Rightarrow> XEmitter \<Rightarrow> XEmitter" where
  "ABI_CallFunctionPPC abi d func param1 param2 param3 s =
     (if M_IX86 abi then
        (let s = ABI_AlignStack abi (3 * 4) d s;
             s = emit (PUSH_bits 32 (Imm32 param3)) s;
             s = emit (PUSH_bits 32 (Imm32 (ucast param2))) s;
             s = emit (PUSH_bits 32 (Imm32 (ucast param1))) s;
             s = emit (CALL func) s
         in ABI_RestoreStack abi (3 * 4) d s)
      else
        (let s = ABI_AlignStack abi 0 d s;
             s = emit (MOV 64 (R (ABI_PARAM1 abi)) (Imm64 param1)) s;
             s = emit (MOV 64 (R (ABI_PARAM2 abi)) (Imm64 param2)) s;
             s = emit (MOV 32 (R (ABI_PARAM3 abi)) (Imm32 param3)) s;
             s = call_near_or_far func s
         in ABI_RestoreStack abi 0 d s))"

definition ABI_CallFunctionR :: "abi \<Rightarrow> bool \<Rightarrow> 64 word \<Rightarrow> X64Reg \<Rightarrow> XEmitter \<Rightarrow> XEmitter" where
  "ABI_CallFunctionR abi d func reg1 s =
     (if M_IX86 abi then
        (let s = ABI_AlignStack abi (1 * 4) d s;
             s = emit (PUSH_bits 32 (R reg1)) s;
             s = emit (CALL func) s
         in ABI_RestoreStack abi (1 * 4) d s)
      else
        (let s = ABI_AlignStack abi 0 d s;
             s = (if reg1 \<noteq> ABI_PARAM1 abi
                  then emit (MOV 32 (R (ABI_PARAM1 abi)) (R reg1)) s else s);
             s = call_near_or_far func s
         in ABI_RestoreStack abi 0 d s))"

definition ABI_CallFunctionRR :: "abi \<Rightarrow> 64 word \<Rightarrow> X64Reg \<Rightarrow> X64Reg \<Rightarrow> bool \<Rightarrow> XEmitter \<Rightarrow> XEmitter" where
  "ABI_CallFunctionRR abi func reg1 reg2 noProlog s =
     (if M_IX86 abi then
        (let s = ABI_AlignStack abi (2 * 4) noProlog s;
             s = emit (PUSH_bits 32 (R reg2)) s;
             s = emit (PUSH_bits 32 (R reg1)) s;
             s = emit (CALL func) s
         in ABI_RestoreStack abi (2 * 4) noProlog s)
      else
        (let s = ABI_AlignStack abi 0 noProlog s;
             s = (if reg2 \<noteq> ABI_PARAM1 abi then
                    (let s = (if reg1 \<noteq> ABI_PARAM1 abi
                              then emit (MOV 64 (R (ABI_PARAM1 abi)) (R reg1)) s else s)
                     in if reg2 \<noteq> ABI_PARAM2 abi
                        then emit (MOV 64 (R (ABI_PARAM2 abi)) (R reg2)) s else s)
                  else
                    (let s = (if reg2 \<noteq> ABI_PARAM2 abi
                              then emit (MOV 64 (R (ABI_PARAM2 abi)) (R reg2)) s else s)
                     in if reg1 \<noteq> ABI_PARAM1 abi
                        then emit (MOV 64 (R (ABI_PARAM1 abi)) (R reg1)) s else s));
             s = call_near_or_far func s
         in ABI_RestoreStack abi 0 noProlog s))"

text \<open>
  Modelled from the spec: \<open>OpArg::IsSimpleReg\<close> is declared in x64Emitter.h, which is
  not among the sources. The spec has the move skipped when the source already
  is the argument register: \<open>arg1.IsSimpleReg(reg)\<close> holds of the operand \<open>R(reg)\<close>
  only.
\<close>

definition IsSimpleReg :: "OpArg \<Rightarrow> X64Reg \<Rightarrow> bool" where
  "IsSimpleReg arg reg \<longleftrightarrow> arg = R reg"

definition ABI_CallFunctionAC :: "abi \<Rightarrow> bool \<Rightarrow> 64 word \<Rightarrow> OpArg \<Rightarrow> 32 word \<Rightarrow> XEmitter \<Rightarrow> XEmitter" where
  "ABI_CallFunctionAC abi d func arg1 param2 s =
     (if M_IX86 abi then
        (let s = ABI_AlignStack abi (2 * 4) d s;
             s = emit (PUSH_bits 32 (Imm32 param2)) s;
             s = emit (PUSH_bits 32 arg1) s;
             s = emit (CALL func) s
         in ABI_RestoreStack abi (2 * 4) d s)
      else
        (let s = ABI_AlignStack abi 0 d s;
             s = (if \<not> IsSimpleReg arg1 (ABI_PARAM1 abi)
                  then emit (MOV 32 (R (ABI_PARAM1 abi)) arg1) s else s);
             s = emit (MOV 32 (R (ABI_PARAM2 abi)) (Imm32 param2)) s;
             s = call_near_or_far func s
         in ABI_RestoreStack abi 0 d s))"

definition ABI_CallFunctionA :: "abi \<Rightarrow> bool \<Rightarrow> 64 word \<Rightarrow> OpArg \<Rightarrow> XEmitter \<Rightarrow> XEmitter" where
  "ABI_CallFunctionA abi d func arg1 s =
     (if M_IX86 abi then
        (let s = ABI_AlignStack abi (1 * 4) d s;
             s = emit (PUSH_bits 32 arg1) s;
             s = emit (CALL func) s
         in ABI_RestoreStack abi (1 * 4) d s)
      else
        (let s = ABI_AlignStack abi 0 d s;
             s = (if \<not> IsSimpleReg arg1 (ABI_PARAM1 abi)
                  then emit (MOV 32 (R (ABI_PARAM1 abi)) arg1) s else s);
             s = call_near_or_far func s
         in ABI_RestoreStack abi 0 d s))"

text \<open>An emitter to run the examples on: nothing written yet, every instruction counted as five bytes.\<close>

definition five_bytes :: "instr \<Rightarrow> 64 word" where
  "five_bytes i = 5"

definition fresh :: "64 word \<Rightarrow> XEmitter" where
  "fresh start = \<lparr>code = start, emitted = [], enc_size = five_bytes\<rparr>"


section \<open>Notions for the statements\<close>

text \<open>
  Writing a list of instructions in order, and the instructions that a run of an
  emitter function adds to what was written before.
\<close>

definition emit_all :: "instr list \<Rightarrow> XEmitter \<Rightarrow> XEmitter" where
  "emit_all is s = fold emit is s"

definition written :: "(XEmitter \<Rightarrow> XEmitter) \<Rightarrow> XEmitter \<Rightarrow> instr list" where
  "written f s = drop (length (emitted s)) (emitted (f s))"

text \<open>The instruction, if any, of \<open>ABI_AlignStack\<close> and of \<open>ABI_RestoreStack\<close>.\<close>

definition align_instrs :: "abi \<Rightarrow> 32 word \<Rightarrow> bool \<Rightarrow> instr list" where
  "align_instrs abi frameSize noProlog =
     (if ABI_GetAlignedFrameSize abi frameSize noProlog - frameSize = 0 then []
      else [SUB (if M_X64 abi then 64 else 32) (R RSP)
              (Imm8 (ucast (ABI_GetAlignedFrameSize abi frameSize noProlog - frameSize)))])"

definition restore_instrs :: "abi \<Rightarrow> 32 word \<Rightarrow> bool \<Rightarrow> instr list" where
  "restore_instrs abi frameSize noProlog =
     (if ABI_GetAlignedFrameSize abi frameSize noProlog = 0 then []
      else [ADD (if M_X64 abi then 64 else 32) (R RSP)
              (Imm8 (ucast (ABI_GetAlignedFrameSize abi frameSize noProlog)))])"

text \<open>
  The registers that a mask selects, in ascending order; the offsets of the
  vector slots, 16 bytes apart from a first offset; and the byte total of the one
  stack adjustment of a save or restore.
\<close>

definition selected_gprs :: "32 word \<Rightarrow> nat list" where
  "selected_gprs msk = filter (mask_bit msk) [0..<16]"

definition selected_xmms :: "32 word \<Rightarrow> nat list" where
  "selected_xmms msk = filter (\<lambda>x. mask_bit msk (16 + x)) [0..<16]"

fun xmm_slots :: "int \<Rightarrow> nat list \<Rightarrow> (nat \<times> int) list" where
  "xmm_slots offset [] = []"
| "xmm_slots offset (x # xs) = (x, offset) # xmm_slots (offset + 16) xs"

definition shadow_space :: "abi \<Rightarrow> int" where
  "shadow_space abi = (if WIN32 abi \<and> M_X64 abi then 0x20 else 0)"

definition adjust_size :: "abi \<Rightarrow> 32 word \<Rightarrow> bool \<Rightarrow> int" where
  "adjust_size abi msk noProlog =
     (((if noProlog then - (if M_X64 abi then 8 else 4) else 0)
        - int (length (selected_gprs msk)) * (if M_X64 abi then 8 else 4)) AND 0xf)
     + 16 * int (length (selected_xmms msk))
     + shadow_space abi"

definition store_instr :: "nat \<times> int \<Rightarrow> instr" where
  "store_instr slot = MOVAPD_store (MDisp RSP (snd slot)) (X64Reg (fst slot))"

definition load_instr :: "nat \<times> int \<Rightarrow> instr" where
  "load_instr slot = MOVAPD_load (X64Reg (fst slot)) (MDisp RSP (snd slot))"

definition PUSH_nr :: "nat \<Rightarrow> instr" where
  "PUSH_nr r = PUSH (X64Reg r)"

definition POP_nr :: "nat \<Rightarrow> instr" where
  "POP_nr r = POP (X64Reg r)"

definition push_instrs :: "abi \<Rightarrow> 32 word \<Rightarrow> bool \<Rightarrow> instr list" where
  "push_instrs abi msk noProlog =
     map PUSH_nr (selected_gprs msk)
     @ (if adjust_size abi msk noProlog = 0 then []
        else [SUB (if M_X64 abi then 64 else 32) (R RSP) (size_imm (adjust_size abi msk noProlog))])
     @ map store_instr (xmm_slots (shadow_space abi) (selected_xmms msk))"

definition pop_instrs :: "abi \<Rightarrow> 32 word \<Rightarrow> bool \<Rightarrow> instr list" where
  "pop_instrs abi msk noProlog =
     map load_instr (xmm_slots (shadow_space abi) (selected_xmms msk))
     @ (if adjust_size abi msk noProlog = 0 then []
        else [ADD (if M_X64 abi then 64 else 32) (R RSP) (size_imm (adjust_size abi msk noProlog))])
     @ map POP_nr (rev (selected_gprs msk))"

text \<open>
  The value that an instruction reads from an immediate operand: the operand's
  bits as a signed number.
\<close>

fun imm_value :: "OpArg \<Rightarrow> int option" where
  "imm_value (Imm8 v) = Some (sint v)"
| "imm_value (Imm16 v) = Some (sint v)"
| "imm_value (Imm32 v) = Some (sint v)"
| "imm_value (Imm64 v) = Some (sint v)"
| "imm_value _ = None"

text \<open>
  The spec's wording of the far-call rule: a near call when the distance fits a
  signed 32-bit displacement, a call through RAX otherwise. \<open>at\<close> is the address
  at which the call is written.
\<close>

definition fits_rel32 :: "64 word \<Rightarrow> bool" where
  "fits_rel32 distance \<longleftrightarrow> - (2 ^ 31) \<le> sint distance \<and> sint distance < 2 ^ 31"

definition call_instrs :: "64 word \<Rightarrow> 64 word \<Rightarrow> instr list" where
  "call_instrs func at =
     (if fits_rel32 (func - (at + 5)) then [CALL func]
      else [MOV 64 (R RAX) (Imm64 func), CALLptr (R RAX)])"

definition size_of :: "XEmitter \<Rightarrow> instr list \<Rightarrow> 64 word" where
  "size_of s is = sum_list (map (enc_size s) is)"

text \<open>
  The argument moves of the register and operand variants of the 64-bit call
  emitters, and the whole of what a 64-bit call emitter writes: the alignment,
  the argument moves, the call chosen at the address reached after them, and the
  restoring of the stack.
\<close>

definition R_moves :: "abi \<Rightarrow> X64Reg \<Rightarrow> instr list" where
  "R_moves abi reg1 =
     (if reg1 \<noteq> ABI_PARAM1 abi then [MOV 32 (R (ABI_PARAM1 abi)) (R reg1)] else [])"

definition RR_moves :: "abi \<Rightarrow> X64Reg \<Rightarrow> X64Reg \<Rightarrow> instr list" where
  "RR_moves abi reg1 reg2 =
     (if reg2 \<noteq> ABI_PARAM1 abi
      then (if reg1 \<noteq> ABI_PARAM1 abi then [MOV 64 (R (ABI_PARAM1 abi)) (R reg1)] else [])
           @ (if reg2 \<noteq> ABI_PARAM2 abi then [MOV 64 (R (ABI_PARAM2 abi)) (R reg2)] else [])
      else (if reg2 \<noteq> ABI_PARAM2 abi then [MOV 64 (R (ABI_PARAM2 abi)) (R reg2)] else [])
           @ (if reg1 \<noteq> ABI_PARAM1 abi then [MOV 64 (R (ABI_PARAM1 abi)) (R reg1)] else []))"

definition A_moves :: "abi \<Rightarrow> OpArg \<Rightarrow> instr list" where
  "A_moves abi arg1 =
     (if \<not> IsSimpleReg arg1 (ABI_PARAM1 abi) then [MOV 32 (R (ABI_PARAM1 abi)) arg1] else [])"

definition call_site_64 :: "abi \<Rightarrow> bool \<Rightarrow> instr list \<Rightarrow> 64 word \<Rightarrow> XEmitter \<Rightarrow> instr list" where
  "call_site_64 abi noProlog moves func s =
     (align_instrs abi 0 noProlog @ moves)
     @ call_instrs func (code s + size_of s (align_instrs abi 0 noProlog @ moves))
     @ restore_instrs abi 0 noProlog"

section \<open>The processor\<close>

text \<open>
  What the written instructions do when they run, as far as the claims need it:
  the general-purpose registers, the vector registers and the memory, in 64-bit
  mode (\<open>64 word machine\<close>) and in 32-bit mode (\<open>32 word machine\<close>). Memory is an
  array of bytes addressed by a word, values are little-endian. An instruction
  that is not described here, or that faults, gives \<open>None\<close>; \<open>MOVAPD\<close> faults on
  an address that is not a multiple of 16. Flags are not modelled.
\<close>

record 'w machine =
  gpr :: "X64Reg \<Rightarrow> 'w"
  xmm :: "X64Reg \<Rightarrow> 128 word"
  mem :: "'w \<Rightarrow> 8 word"

fun store_bytes :: "nat \<Rightarrow> 'a::len word \<Rightarrow> nat \<Rightarrow> ('a word \<Rightarrow> 8 word) \<Rightarrow> ('a word \<Rightarrow> 8 word)" where
  "store_bytes 0 a v m = m"
| "store_bytes (Suc n) a v m = store_bytes n (a + 1) (v div 256) (m(a := of_nat v))"

fun load_bytes :: "nat \<Rightarrow> 'a::len word \<Rightarrow> ('a word \<Rightarrow> 8 word) \<Rightarrow> nat" where
  "load_bytes 0 a m = 0"
| "load_bytes (Suc n) a m = unat (m a) + 256 * load_bytes n (a + 1) m"

text \<open>Sixteen registers of each kind in 64-bit mode, eight in 32-bit mode.\<close>

fun has_reg :: "nat \<Rightarrow> X64Reg \<Rightarrow> bool" where
  "has_reg bits (X64Reg n) = (n < (if bits = 64 then 16 else 8))"

text \<open>
  The value of a source operand of an operation of \<open>bits\<close> bits, zero-extended to
  the register width. An 8-bit or 32-bit immediate is sign-extended to the
  operation's width.
\<close>

fun read_op :: "nat \<Rightarrow> OpArg \<Rightarrow> 'a::len word machine \<Rightarrow> 'a word option" where
  "read_op bits (R r) m = (if has_reg LENGTH('a) r then Some (take_bit bits (gpr m r)) else None)"
| "read_op bits (Imm8 v) m = Some (take_bit bits (scast v))"
| "read_op bits (Imm16 v) m = None"
| "read_op bits (Imm32 v) m = Some (take_bit bits (scast v))"
| "read_op bits (Imm64 v) m = (if bits = 64 then Some (ucast v) else None)"
| "read_op bits (MDisp b off) m =
     (if has_reg LENGTH('a) b
      then Some (of_nat (load_bytes (bits div 8) (gpr m b + word_of_int off) (mem m)))
      else None)"

definition width_ok :: "nat \<Rightarrow> nat \<Rightarrow> bool" where
  "width_ok len bits \<longleftrightarrow> (bits = 32 \<or> bits = 64) \<and> bits \<le> len"

definition push_value :: "'a::len word \<Rightarrow> 'a word machine \<Rightarrow> 'a word machine" where
  "push_value v m =
     (let sp = gpr m RSP - of_nat (LENGTH('a) div 8)
      in m\<lparr>gpr := (gpr m)(RSP := sp),
            mem := store_bytes (LENGTH('a) div 8) sp (unat v) (mem m)\<rparr>)"

text \<open>
  A 32-bit operation on a register in 64-bit mode clears the upper half. \<open>PUSH\<close>
  of the stack pointer stores its value before the push, \<open>POP\<close> into the stack
  pointer leaves the loaded value there. Calls transfer control and are not
  executed by this function.
\<close>

fun exec :: "instr \<Rightarrow> 'a::len word machine \<Rightarrow> 'a word machine option" where
  "exec (PUSH r) m = (if has_reg LENGTH('a) r then Some (push_value (gpr m r) m) else None)"
| "exec (PUSH_bits bits src) m =
     (if bits = LENGTH('a) \<and> width_ok LENGTH('a) bits
      then (case read_op bits src m of None \<Rightarrow> None | Some v \<Rightarrow> Some (push_value v m))
      else None)"
| "exec (POP r) m =
     (if has_reg LENGTH('a) r
      then Some (m\<lparr>gpr := ((gpr m)(RSP := gpr m RSP + of_nat (LENGTH('a) div 8)))
                          (r := of_nat (load_bytes (LENGTH('a) div 8) (gpr m RSP) (mem m)))\<rparr>)
      else None)"
| "exec (SUB bits (R dst) src) m =
     (if width_ok LENGTH('a) bits \<and> has_reg LENGTH('a) dst
      then (case read_op bits src m of None \<Rightarrow> None
            | Some v \<Rightarrow> Some (m\<lparr>gpr := (gpr m)(dst := take_bit bits (gpr m dst - v))\<rparr>))
      else None)"
| "exec (ADD bits (R dst) src) m =
     (if width_ok LENGTH('a) bits \<and> has_reg LENGTH('a) dst
      then (case read_op bits src m of None \<Rightarrow> None
            | Some v \<Rightarrow> Some (m\<lparr>gpr := (gpr m)(dst := take_bit bits (gpr m dst + v))\<rparr>))
      else None)"
| "exec (MOV bits (R dst) src) m =
     (if width_ok LENGTH('a) bits \<and> has_reg LENGTH('a) dst
      then (case read_op bits src m of None \<Rightarrow> None
            | Some v \<Rightarrow> Some (m\<lparr>gpr := (gpr m)(dst := v)\<rparr>))
      else None)"
| "exec (MOVAPD_store (MDisp b off) x) m =
     (if has_reg LENGTH('a) b \<and> has_reg LENGTH('a) x \<and> (gpr m b + word_of_int off) AND 15 = 0
      then Some (m\<lparr>mem := store_bytes 16 (gpr m b + word_of_int off) (unat (xmm m x)) (mem m)\<rparr>)
      else None)"
| "exec (MOVAPD_load x (MDisp b off)) m =
     (if has_reg LENGTH('a) b \<and> has_reg LENGTH('a) x \<and> (gpr m b + word_of_int off) AND 15 = 0
      then Some (m\<lparr>xmm := (xmm m)(x := of_nat (load_bytes 16 (gpr m b + word_of_int off) (mem m)))\<rparr>)
      else None)"
| "exec _ m = None"

fun run :: "instr list \<Rightarrow> 'a::len word machine \<Rightarrow> 'a word machine option" where
  "run [] m = Some m"
| "run (i # is) m = (case exec i m of None \<Rightarrow> None | Some m' \<Rightarrow> run is m')"

text \<open>The instructions of a call site that run before control reaches the callee.\<close>

fun is_call :: "instr \<Rightarrow> bool" where
  "is_call (CALL f) = True"
| "is_call (CALLptr a) = True"
| "is_call _ = False"

definition before_call :: "instr list \<Rightarrow> instr list" where
  "before_call is = takeWhile (\<lambda>i. \<not> is_call i) is"

text \<open>
  The state in which control reaches the callee, the value of a register then,
  and the \<open>k\<close>-th stack slot above the stack pointer; a machine whose registers
  hold given values and everything else zero, for the examples; and the load of
  RAX that precedes a far call.
\<close>

definition at_call :: "instr list \<Rightarrow> 'a::len word machine \<Rightarrow> 'a word machine option" where
  "at_call is m = run (before_call is) m"

definition reg_at_call :: "X64Reg \<Rightarrow> instr list \<Rightarrow> 'a::len word machine \<Rightarrow> 'a word option" where
  "reg_at_call r is m = (case at_call is m of None \<Rightarrow> None | Some m' \<Rightarrow> Some (gpr m' r))"

definition stack_slot :: "'a::len word machine \<Rightarrow> nat \<Rightarrow> 'a word" where
  "stack_slot m k =
     of_nat (load_bytes (LENGTH('a) div 8) (gpr m RSP + of_nat (k * (LENGTH('a) div 8))) (mem m))"

definition machine_with :: "(X64Reg \<times> 'a word) list \<Rightarrow> 'a::len word machine" where
  "machine_with rs =
     \<lparr>gpr = (\<lambda>r. case map_of rs r of Some v \<Rightarrow> v | None \<Rightarrow> 0), xmm = (\<lambda>x. 0), mem = (\<lambda>a. 0)\<rparr>"

definition far_load :: "64 word \<Rightarrow> 64 word \<Rightarrow> instr list" where
  "far_load func at = (if fits_rel32 (func - (at + 5)) then [] else [MOV 64 (R RAX) (Imm64 func)])"

text \<open>
  The bytes by which a register save moves the stack pointer: the pushes and the
  adjustment.
\<close>

definition saved_bytes :: "abi \<Rightarrow> 32 word \<Rightarrow> bool \<Rightarrow> int" where
  "saved_bytes abi msk noProlog =
     (if M_X64 abi then 8 else 4) * int (length (selected_gprs msk)) + adjust_size abi msk noProlog"

section \<open>Rounding in 32-bit arithmetic\<close>

lemma and_15_mod: "unat ((w::32 word) AND 15) = unat w mod 16"
proof -
  have "(15::32 word) = mask 4" by (simp add: mask_eq_exp_minus_1)
  then have "w AND 15 = take_bit 4 w" by (simp add: take_bit_eq_mask)
  then show ?thesis by (simp add: unsigned_take_bit_eq take_bit_eq_mod unat_mod)
qed

lemma split_at_16: "(w::32 word) = (w AND - 16) + (w AND 15)"
proof -
  have a: "(w AND - 16) AND (w AND 15) = 0"
    by (simp add: and.assoc and.left_commute)
  have b: "(w AND - 16) OR (w AND 15) = w"
    by (simp flip: bit.conj_disj_distrib)
  show ?thesis using word_plus_and_or[of "w AND - 16" "w AND 15"] a b by simp
qed

lemma split_at_4: "(w::32 word) = (w AND - 4) + (w AND 3)"
proof -
  have a: "(w AND - 4) AND (w AND 3) = 0"
    by (simp add: and.assoc and.left_commute)
  have b: "(w AND - 4) OR (w AND 3) = w"
    by (simp flip: bit.conj_disj_distrib)
  show ?thesis using word_plus_and_or[of "w AND - 4" "w AND 3"] a b by simp
qed

lemma and_neg16_unat: "unat ((w::32 word) AND - 16) = unat w - unat w mod 16"
proof -
  define A where "A = unat (w AND - 16)"
  define B where "B = unat w mod 16"
  have le: "A \<le> unat w" unfolding A_def
    by (rule word_and_le2 [THEN word_le_nat_alt [THEN iffD1]])
  have lt: "unat w < 2^32" using unsigned_less[of w] by simp
  have B: "B < 16" by (simp add: B_def)
  have "unat w = unat ((w AND - 16) + (w AND 15))" using split_at_16[of w] by simp
  also have "\<dots> = (unat (w AND - 16) + unat (w AND 15)) mod 2^32"
    by (simp add: unat_word_ariths)
  finally have e: "unat w = (A + B) mod 2^32" by (simp add: and_15_mod A_def B_def)
  have "A + B = unat w"
  proof (cases "A + B < 2^32")
    case True then show ?thesis using e by simp
  next
    case False
    then have "(A + B) mod 2^32 = A + B - 2^32" using le lt B
      by (simp add: mod_if)
    then show ?thesis using e le lt B False by simp
  qed
  then show ?thesis unfolding A_def B_def by simp
qed

lemma round_up_16_unat:
  assumes "unat (x::32 word) + 15 < 2^32"
  shows "unat ((x + 15) AND - 16) = ((unat x + 15) div 16) * 16"
proof -
  have "unat (x + 15) = unat x + 15" using assms by (simp add: unat_word_ariths)
  then show ?thesis by (simp add: and_neg16_unat minus_mod_eq_div_mult)
qed

lemma fill_16: "((x::32 word) + 15 AND - 16) - x = 15 - ((x + 15) AND 15)"
proof -
  have "(x + 15 AND - 16) = (x + 15) - ((x + 15) AND 15)"
    using split_at_16[of "x + 15"] by (simp add: algebra_simps)
  then show ?thesis by simp
qed

lemma fill_16_le: "((x::32 word) + 15 AND - 16) - x \<le> 15"
proof -
  have "(x + 15) AND 15 \<le> 15" by (rule word_and_le1)
  then have "15 - ((x + 15) AND 15) \<le> 15"
    by (simp add: word_sub_le)
  then show ?thesis by (simp add: fill_16)
qed

lemma fill_4: "((x::32 word) + 3 AND - 4) - x = 3 - ((x + 3) AND 3)"
proof -
  have "(x + 3 AND - 4) = (x + 3) - ((x + 3) AND 3)"
    using split_at_4[of "x + 3"] by (simp add: algebra_simps)
  then show ?thesis by simp
qed

lemma fill_4_le: "((x::32 word) + 3 AND - 4) - x \<le> 3"
proof -
  have "(x + 3) AND 3 \<le> 3" by (rule word_and_le1)
  then have "3 - ((x + 3) AND 3) \<le> 3"
    by (simp add: word_sub_le)
  then show ?thesis by (simp add: fill_4)
qed

lemma round_16_again: "(((z::32 word) AND - 16) + 15) AND - 16 = z AND - 16"
proof -
  let ?y = "z AND - 16"
  have a: "?y AND 15 = 0" by (simp add: and.assoc)
  have "?y + 15 = ?y OR 15" using word_plus_and_or[of ?y 15] a by simp
  then show ?thesis by (simp add: bit.conj_disj_distrib2 and.assoc)
qed

lemma round_4_again: "(((z::32 word) AND - 4) + 3) AND - 4 = z AND - 4"
proof -
  let ?y = "z AND - 4"
  have a: "?y AND 3 = 0" by (simp add: and.assoc)
  have "?y + 3 = ?y OR 3" using word_plus_and_or[of ?y 3] a by simp
  then show ?thesis by (simp add: bit.conj_disj_distrib2 and.assoc)
qed

lemma fill_Unix32: "ABI_GetAlignedFrameSize Unix32 frameSize noProlog - frameSize \<le> 15"
proof -
  define e :: "32 word" where "e = (if noProlog then 0xc else 0)"
  define y where "y = (frameSize - e + 15 AND - 16)"
  have 1: "ABI_GetAlignedFrameSize Unix32 frameSize noProlog = y + e"
    unfolding ABI_GetAlignedFrameSize_def Let_def e_def y_def by simp
  have 2: "y + e - frameSize = y - (frameSize - e)" by simp
  have 3: "y - (frameSize - e) \<le> 15"
    using fill_16_le[of "frameSize - e"] by (simp only: y_def)
  show ?thesis by (simp only: 1 2 3)
qed

lemma fill_Win32: "ABI_GetAlignedFrameSize Win32 frameSize noProlog - frameSize \<le> 3"
  using fill_4_le[of "frameSize"]
  by (simp add: ABI_GetAlignedFrameSize_def Let_def)

lemma Unix32_unat:
  assumes "e = (if noProlog then 12 else 0)"
    and "e \<le> unat frameSize" and "unat frameSize - e + 15 < 2 ^ 32"
  shows "unat (ABI_GetAlignedFrameSize Unix32 frameSize noProlog)
         = ((unat frameSize - e + 15) div 16) * 16 + e"
proof -
  define w :: "32 word" where "w = (if noProlog then 0xc else 0)"
  have uw: "unat w = e" using assms(1) by (simp add: w_def)
  have "w \<le> frameSize" using assms(2) uw by (simp add: word_le_nat_alt)
  then have sub: "unat (frameSize - w) = unat frameSize - e"
    using uw by (simp add: unat_sub)
  then have r: "unat ((frameSize - w + 15) AND - 16) = ((unat frameSize - e + 15) div 16) * 16"
    using round_up_16_unat[of "frameSize - w"] assms(3) by simp
  define q where "q = (unat frameSize - e + 15) div 16"
  have "q * 16 \<le> unat frameSize - e + 15" by (simp add: q_def)
  then have "q * 16 < 4294967296" using assms(3) by simp
  then have "q < 268435456" by simp
  then have "q * 16 + 16 \<le> 4294967296" by simp
  then have "((unat frameSize - e + 15) div 16) * 16 + 16 \<le> 2 ^ 32" by (simp add: q_def)
  moreover have "e \<le> 12" using assms(1) by simp
  ultimately have "((unat frameSize - e + 15) div 16) * 16 + e < 2 ^ 32" by simp
  moreover have "ABI_GetAlignedFrameSize Unix32 frameSize noProlog
                 = ((frameSize - w + 15) AND - 16) + w"
    unfolding ABI_GetAlignedFrameSize_def Let_def w_def by simp
  ultimately show ?thesis using r uw by (simp add: unat_word_ariths)
qed

section \<open>What the emitters write\<close>

lemma emitted_emit [simp]: "emitted (emit i s) = emitted s @ [i]"
  by (simp add: emit_def)

lemma enc_size_emit [simp]: "enc_size (emit i s) = enc_size s"
  by (simp add: emit_def)

lemma code_emit [simp]: "code (emit i s) = code s + enc_size s i"
  by (simp add: emit_def)

lemma emit_all_Nil [simp]: "emit_all [] s = s"
  by (simp add: emit_all_def)

lemma emit_all_Cons [simp]: "emit_all (i # is) s = emit_all is (emit i s)"
  by (simp add: emit_all_def)

lemma emit_all_append: "emit_all (is @ js) s = emit_all js (emit_all is s)"
  by (simp add: emit_all_def)

lemma emitted_emit_all [simp]: "emitted (emit_all is s) = emitted s @ is"
  by (induction "is" arbitrary: s) simp_all

lemma enc_size_emit_all [simp]: "enc_size (emit_all is s) = enc_size s"
  by (induction "is" arbitrary: s) simp_all

lemma code_emit_all [simp]: "code (emit_all is s) = code s + size_of s is"
  by (induction "is" arbitrary: s) (simp_all add: size_of_def algebra_simps)

lemma size_of_emit_all [simp]: "size_of (emit_all is s) js = size_of s js"
  by (simp add: size_of_def)

lemma size_of_append: "size_of s (is @ js) = size_of s is + size_of s js"
  by (simp add: size_of_def)

lemma written_emit_all [simp]: "written (emit_all is) s = is"
  by (simp add: written_def)

lemma emit_as_emit_all: "emit i s = emit_all [i] s"
  by simp

lemma ABI_AlignStack_emit_all:
  "ABI_AlignStack abi frameSize noProlog s = emit_all (align_instrs abi frameSize noProlog) s"
  by (simp add: ABI_AlignStack_def align_instrs_def Let_def)

lemma ABI_RestoreStack_emit_all:
  "ABI_RestoreStack abi frameSize noProlog s = emit_all (restore_instrs abi frameSize noProlog) s"
  by (simp add: ABI_RestoreStack_def restore_instrs_def Let_def)

lemma push_gpr_fold:
  "fold (push_gpr_step msk) rs (s, c)
   = (emit_all (map PUSH_nr (filter (mask_bit msk) rs)) s,
      c + int (length (filter (mask_bit msk) rs)))"
  by (induction rs arbitrary: s c) (simp_all add: push_gpr_step_def PUSH_nr_def)

lemma xmm_size_fold:
  "fold (xmm_size_step msk) xs sz
   = sz + 16 * int (length (filter (\<lambda>x. mask_bit msk (16 + x)) xs))"
  by (induction xs arbitrary: sz) (simp_all add: xmm_size_step_def)

lemma count_gpr_fold:
  "fold (count_gpr_step msk) rs c = c + int (length (filter (mask_bit msk) rs))"
  by (induction rs arbitrary: c) (simp_all add: count_gpr_step_def)

lemma length_xmm_slots [simp]: "length (xmm_slots off xs) = length xs"
  by (induction xs arbitrary: off) simp_all

lemma store_xmm_fold:
  "fold (store_xmm_step msk) xs (s, off)
   = (emit_all (map store_instr (xmm_slots off (filter (\<lambda>x. mask_bit msk (16 + x)) xs))) s,
      off + 16 * int (length (filter (\<lambda>x. mask_bit msk (16 + x)) xs)))"
  by (induction xs arbitrary: s off) (simp_all add: store_xmm_step_def store_instr_def)

lemma load_xmm_fold:
  "fold (load_xmm_step msk) xs (s, off)
   = (emit_all (map load_instr (xmm_slots off (filter (\<lambda>x. mask_bit msk (16 + x)) xs))) s,
      off + 16 * int (length (filter (\<lambda>x. mask_bit msk (16 + x)) xs)))"
  by (induction xs arbitrary: s off) (simp_all add: load_xmm_step_def load_instr_def)

lemma pop_gpr_fold:
  "fold (pop_gpr_step msk) rs s = emit_all (map POP_nr (filter (mask_bit msk) rs)) s"
  by (induction rs arbitrary: s) (simp_all add: pop_gpr_step_def POP_nr_def)

lemma ABI_PushRegistersAndAdjustStack_emit_all:
  "ABI_PushRegistersAndAdjustStack abi msk noProlog s = emit_all (push_instrs abi msk noProlog) s"
  unfolding ABI_PushRegistersAndAdjustStack_def push_instrs_def
  by (simp add: Let_def push_gpr_fold xmm_size_fold store_xmm_fold adjust_size_def shadow_space_def
      selected_gprs_def selected_xmms_def algebra_simps emit_all_append)

lemma ABI_PopRegistersAndAdjustStack_emit_all:
  "ABI_PopRegistersAndAdjustStack abi msk noProlog s = emit_all (pop_instrs abi msk noProlog) s"
  unfolding ABI_PopRegistersAndAdjustStack_def pop_instrs_def
  by (simp add: Let_def load_xmm_fold count_gpr_fold pop_gpr_fold adjust_size_def shadow_space_def
      selected_gprs_def selected_xmms_def algebra_simps rev_filter emit_all_append)

lemma shadow_space_range: "0 \<le> shadow_space abi \<and> shadow_space abi \<le> 32"
  by (simp add: shadow_space_def)

lemma length_selected: "length (selected_xmms msk) \<le> 16 \<and> length (selected_gprs msk) \<le> 16"
proof -
  have "length (filter P [0..<16]) \<le> length [0..<16]" for P :: "nat \<Rightarrow> bool"
    by (rule length_filter_le)
  then show ?thesis
    by (simp add: selected_xmms_def selected_gprs_def)
qed

lemma adjust_size_lower:
  "16 * int (length (selected_xmms msk)) + shadow_space abi \<le> adjust_size abi msk noProlog"
proof -
  have "0 \<le> (x::int) AND 15" for x by simp
  then show ?thesis unfolding adjust_size_def by (simp del: and_nonnegative_int_iff)
qed

lemma adjust_size_upper:
  "adjust_size abi msk noProlog \<le> 15 + 16 * int (length (selected_xmms msk)) + shadow_space abi"
proof -
  have "(x::int) AND 15 \<le> 15" for x by (simp add: AND_upper2)
  then show ?thesis unfolding adjust_size_def by simp
qed

lemma adjust_size_range: "0 \<le> adjust_size abi msk noProlog \<and> adjust_size abi msk noProlog \<le> 303"
  using adjust_size_lower[of msk abi noProlog] adjust_size_upper[of abi msk noProlog]
    shadow_space_range[of abi] length_selected[of msk]
  by linarith

lemma sint_small8: "0 \<le> k \<Longrightarrow> k < 128 \<Longrightarrow> sint (word_of_int k :: 8 word) = k"
  by (simp add: sint_sbintrunc' signed_take_bit_int_eq_self)

lemma sint_small32: "0 \<le> k \<Longrightarrow> k < 2147483648 \<Longrightarrow> sint (word_of_int k :: 32 word) = k"
  by (simp add: sint_sbintrunc' signed_take_bit_int_eq_self)

lemma imm_value_size_imm:
  "imm_value (size_imm (adjust_size abi msk noProlog)) = Some (adjust_size abi msk noProlog)"
  using adjust_size_range[of abi msk noProlog]
  by (simp add: size_imm_def sint_small8 sint_small32)

section \<open>Call sites of the 64-bit build\<close>

lemma sint64: "sint (w :: 64 word) = (if uint w < 2^63 then uint w else uint w - 2^64)"
proof -
  have lt: "uint w < 2^64" using uint_lt2p[of w] by simp
  have ge: "0 \<le> uint w" by simp
  have "sint w = signed_take_bit 63 (uint w)" by (simp add: sint_uint)
  also have "\<dots> = (uint w + 2^63) mod 2^64 - 2^63"
    by (simp add: signed_take_bit_eq_take_bit_shift take_bit_eq_mod)
  finally have s: "sint w = (uint w + 2^63) mod 2^64 - 2^63" .
  show ?thesis
  proof (cases "uint w < 2^63")
    case True
    then have "(uint w + 2^63) mod 2^64 = uint w + 2^63" using ge by simp
    then show ?thesis using s True by simp
  next
    case False
    then have "(uint w + 2^63) mod 2^64 = uint w + 2^63 - 2^64" using lt
      by (simp add: mod_pos_geq)
    then show ?thesis using s False by simp
  qed
qed

lemma far_test:
  "(0x0000000080000000 \<le> (d::64 word) \<and> d < 0xFFFFFFFF80000000) \<longleftrightarrow> \<not> fits_rel32 d"
proof -
  have "- 2147483648 \<le> uint d"
    by (rule order_trans[OF _ uint_ge_0]) simp
  moreover have "uint d < 18446744073709551616"
    using uint_lt2p[of d] by simp
  ultimately show ?thesis
    unfolding fits_rel32_def sint64 word_le_def word_less_alt by auto
qed

lemma call_near_or_far_emit_all:
  "call_near_or_far func s = emit_all (call_instrs func (code s)) s"
  by (simp add: call_near_or_far_def call_instrs_def Let_def far_test)

lemma M_X64_not_IX86: "M_X64 abi \<Longrightarrow> \<not> M_IX86 abi"
  by (cases abi) simp_all

lemmas call_emitter_simps =
  ABI_AlignStack_emit_all ABI_RestoreStack_emit_all call_near_or_far_emit_all
  Let_def emit_all_append size_of_def call_site_64_def written_def algebra_simps

lemma call_emitters_64:
  assumes "M_X64 abi"
  shows "written (ABI_CallFunction abi d func) s = call_site_64 abi d [] func s"
    and "written (ABI_CallFunctionC16 abi d func c16) s
         = call_site_64 abi d [MOV 32 (R (ABI_PARAM1 abi)) (Imm32 (ucast c16))] func s"
    and "written (ABI_CallFunctionCC16 abi d func c1 c16) s
         = call_site_64 abi d [MOV 32 (R (ABI_PARAM1 abi)) (Imm32 c1),
                               MOV 32 (R (ABI_PARAM2 abi)) (Imm32 (ucast c16))] func s"
    and "written (ABI_CallFunctionC abi d func c1) s
         = call_site_64 abi d [MOV 32 (R (ABI_PARAM1 abi)) (Imm32 c1)] func s"
    and "written (ABI_CallFunctionCC abi d func c1 c2) s
         = call_site_64 abi d [MOV 32 (R (ABI_PARAM1 abi)) (Imm32 c1),
                               MOV 32 (R (ABI_PARAM2 abi)) (Imm32 c2)] func s"
    and "written (ABI_CallFunctionCCC abi d func c1 c2 c3) s
         = call_site_64 abi d [MOV 32 (R (ABI_PARAM1 abi)) (Imm32 c1),
                               MOV 32 (R (ABI_PARAM2 abi)) (Imm32 c2),
                               MOV 32 (R (ABI_PARAM3 abi)) (Imm32 c3)] func s"
    and "written (ABI_CallFunctionCCP abi d func c1 c2 p3) s
         = call_site_64 abi d [MOV 32 (R (ABI_PARAM1 abi)) (Imm32 c1),
                               MOV 32 (R (ABI_PARAM2 abi)) (Imm32 c2),
                               MOV 64 (R (ABI_PARAM3 abi)) (Imm64 p3)] func s"
    and "written (ABI_CallFunctionCCCP abi d func c1 c2 c3 p4) s
         = call_site_64 abi d [MOV 32 (R (ABI_PARAM1 abi)) (Imm32 c1),
                               MOV 32 (R (ABI_PARAM2 abi)) (Imm32 c2),
                               MOV 32 (R (ABI_PARAM3 abi)) (Imm32 c3),
                               MOV 64 (R (ABI_PARAM4 abi)) (Imm64 p4)] func s"
    and "written (ABI_CallFunctionPPC abi d func p1 p2 c3) s
         = call_site_64 abi d [MOV 64 (R (ABI_PARAM1 abi)) (Imm64 p1),
                               MOV 64 (R (ABI_PARAM2 abi)) (Imm64 p2),
                               MOV 32 (R (ABI_PARAM3 abi)) (Imm32 c3)] func s"
    and "written (ABI_CallFunctionR abi d func reg1) s
         = call_site_64 abi d (R_moves abi reg1) func s"
    and "written (ABI_CallFunctionRR abi func reg1 reg2 noProlog) s
         = call_site_64 abi noProlog (RR_moves abi reg1 reg2) func s"
    and "written (ABI_CallFunctionAC abi d func arg1 c2) s
         = call_site_64 abi d (A_moves abi arg1 @ [MOV 32 (R (ABI_PARAM2 abi)) (Imm32 c2)]) func s"
    and "written (ABI_CallFunctionA abi d func arg1) s
         = call_site_64 abi d (A_moves abi arg1) func s"
  using M_X64_not_IX86[OF assms]
  by (simp_all add: ABI_CallFunction_def ABI_CallFunctionC16_def ABI_CallFunctionCC16_def
      ABI_CallFunctionC_def ABI_CallFunctionCC_def ABI_CallFunctionCCC_def ABI_CallFunctionCCP_def
      ABI_CallFunctionCCCP_def ABI_CallFunctionPPC_def ABI_CallFunctionR_def ABI_CallFunctionRR_def
      ABI_CallFunctionAC_def ABI_CallFunctionA_def R_moves_def RR_moves_def A_moves_def
      call_emitter_simps)

lemma fits_rel32_boundary:
  "fits_rel32 0x7FFFFFFF" "\<not> fits_rel32 0x80000000"
  "fits_rel32 (- 0x80000000)" "\<not> fits_rel32 (- 0x80000001)"
  by (simp_all add: fits_rel32_def)

section \<open>Memory\<close>

lemma unat_diff_succ:
  fixes x a :: "'a::len word"
  assumes "x \<noteq> a"
  shows "unat (x - (a + 1)) = unat (x - a) - 1" and "0 < unat (x - a)"
proof -
  have nz: "x - a \<noteq> 0" using assms by simp
  have "x - (a + 1) = (x - a) - 1" by simp
  then show "unat (x - (a + 1)) = unat (x - a) - 1"
    by (simp only: unat_minus_one[OF nz])
  show "0 < unat (x - a)" using nz by (simp add: unat_gt_0)
qed

lemma store_bytes_at:
  fixes a x :: "'a::len word"
  assumes "n \<le> 2 ^ LENGTH('a)"
  shows "store_bytes n a v m x
         = (if unat (x - a) < n then of_nat (v div 256 ^ unat (x - a)) else m x)"
  using assms
proof (induction n arbitrary: a v m)
  case 0
  then show ?case by simp
next
  case (Suc n)
  then have n: "n < 2 ^ LENGTH('a)" "n \<le> 2 ^ LENGTH('a)" by simp_all
  show ?case
  proof (cases "x = a")
    case True
    have "unat (a - (a + 1)) = 2 ^ LENGTH('a) - 1"
      by (simp add: unsigned_minus_1_eq_mask mask_eq_exp_minus_1)
    then have "\<not> unat (a - (a + 1)) < n" using n by simp
    then show ?thesis using True Suc.IH[OF n(2)] by simp
  next
    case False
    note d = unat_diff_succ[OF False]
    have "(v div 256) div 256 ^ (unat (x - a) - 1) = v div 256 ^ unat (x - a)"
      using d(2) by (cases "unat (x - a)") (simp_all add: div_mult2_eq)
    then show ?thesis using False d Suc.IH[OF n(2)] by auto
  qed
qed

lemma load_bytes_cong:
  fixes a :: "'a::len word"
  assumes "\<And>i. i < n \<Longrightarrow> m (a + of_nat i) = m' (a + of_nat i)"
  shows "load_bytes n a m = load_bytes n a m'"
  using assms
proof (induction n arbitrary: a)
  case 0
  then show ?case by simp
next
  case (Suc n)
  have "m a = m' a" using Suc.prems[of 0] by simp
  moreover have "load_bytes n (a + 1) m = load_bytes n (a + 1) m'"
  proof (rule Suc.IH)
    fix i assume "i < n"
    then show "m (a + 1 + of_nat i) = m' (a + 1 + of_nat i)"
      using Suc.prems[of "Suc i"] by (simp add: add.assoc)
  qed
  ultimately show ?case by simp
qed

lemma load_store_bytes:
  fixes a :: "'a::len word"
  assumes "n \<le> 2 ^ LENGTH('a)"
  shows "load_bytes n a (store_bytes n a v m) = v mod 256 ^ n"
  using assms
proof (induction n arbitrary: a v m)
  case 0
  then show ?case by simp
next
  case (Suc n)
  then have n: "n < 2 ^ LENGTH('a)" "n \<le> 2 ^ LENGTH('a)" by simp_all
  have "unat (a - (a + 1)) = 2 ^ LENGTH('a) - 1"
    by (simp add: unsigned_minus_1_eq_mask mask_eq_exp_minus_1)
  then have "\<not> unat (a - (a + 1)) < n" using n by simp
  then have first: "store_bytes n (a + 1) (v div 256) (m(a := of_nat v)) a = of_nat v"
    by (simp add: store_bytes_at[OF n(2)])
  have "unat (of_nat v :: 8 word) = v mod 256"
    by (simp add: unat_of_nat)
  then show ?case
    using first Suc.IH[OF n(2)]
    by (simp add: mod_mult2_eq)
qed

lemma load_bytes_frame:
  fixes a b :: "'a::len word"
  assumes "k \<le> 2 ^ LENGTH('a)"
    and "\<And>i. i < n \<Longrightarrow> k \<le> unat (a + of_nat i - b)"
  shows "load_bytes n a (store_bytes k b v m) = load_bytes n a m"
proof (rule load_bytes_cong)
  fix i assume "i < n"
  then show "store_bytes k b v m (a + of_nat i) = m (a + of_nat i)"
    using assms(2)[of i] by (simp add: store_bytes_at[OF assms(1)])
qed

section \<open>Running the written instructions\<close>

lemma run_append:
  "run (is @ js) m = (case run is m of None \<Rightarrow> None | Some m' \<Rightarrow> run js m')"
  by (induction "is" arbitrary: m) (simp_all split: option.splits)

lemma before_call_simps [simp]:
  "before_call [] = []"
  "before_call (CALL f # is) = []"
  "before_call (CALLptr a # is) = []"
  "before_call (MOV b x y # is) = MOV b x y # before_call is"
  "before_call (SUB b x y # is) = SUB b x y # before_call is"
  "before_call (ADD b x y # is) = ADD b x y # before_call is"
  "before_call (PUSH_bits b x # is) = PUSH_bits b x # before_call is"
  "before_call (PUSH r # is) = PUSH r # before_call is"
  "before_call (POP r # is) = POP r # before_call is"
  by (simp_all add: before_call_def)

lemma before_call_append:
  "\<forall>i\<in>set is. \<not> is_call i \<Longrightarrow> before_call (is @ js) = is @ before_call js"
  by (simp add: before_call_def takeWhile_append2)

lemma no_call_align [simp]: "\<forall>i\<in>set (align_instrs abi f np). \<not> is_call i"
  by (simp add: align_instrs_def)

lemma run_align_32:
  fixes m :: "32 word machine"
  assumes "M_IX86 abi"
  shows "\<exists>sp. run (align_instrs abi f np) m = Some (m\<lparr>gpr := (gpr m)(RSP := sp)\<rparr>)"
proof (cases "align_instrs abi f np = []")
  case True
  have "m = m\<lparr>gpr := (gpr m)(RSP := gpr m RSP)\<rparr>" by simp
  then show ?thesis using True by (metis run.simps(1))
next
  case False
  have "\<not> M_X64 abi" using assms by (cases abi) simp_all
  then show ?thesis using False
    by (auto simp: align_instrs_def width_ok_def split: if_splits)
qed

lemma run_align_64:
  fixes m :: "64 word machine"
  assumes "M_X64 abi"
  shows "\<exists>sp. run (align_instrs abi f np) m = Some (m\<lparr>gpr := (gpr m)(RSP := sp)\<rparr>)"
proof (cases "align_instrs abi f np = []")
  case True
  have "m = m\<lparr>gpr := (gpr m)(RSP := gpr m RSP)\<rparr>" by simp
  then show ?thesis using True by (metis run.simps(1))
next
  case False
  then show ?thesis using assms
    by (auto simp: align_instrs_def width_ok_def split: if_splits)
qed

lemma two_pushes_32:
  fixes m :: "32 word machine"
  shows "\<exists>m'. run [PUSH_bits 32 (Imm32 p2), PUSH_bits 32 (Imm32 p1)] m = Some m'
     \<and> stack_slot m' 0 = p1 \<and> stack_slot m' 1 = p2"
proof -
  define sp where "sp = gpr m RSP"
  define mem1 where "mem1 = store_bytes 4 (sp - 4) (unat p2) (mem m)"
  define mem2 where "mem2 = store_bytes 4 (sp - 8) (unat p1) mem1"
  define m' where "m' = m\<lparr>gpr := (gpr m)(RSP := sp - 8), mem := mem2\<rparr>"
  have r: "run [PUSH_bits 32 (Imm32 p2), PUSH_bits 32 (Imm32 p1)] m = Some m'"
    by (simp add: width_ok_def push_value_def Let_def m'_def mem2_def mem1_def sp_def
        take_bit_word_eq_self)
  have lt: "unat p1 < 256 ^ 4" "unat p2 < 256 ^ 4"
    using unsigned_less[of p1] unsigned_less[of p2] by simp_all
  have s0: "load_bytes 4 (sp - 8) mem2 = unat p1"
    unfolding mem2_def using lt by (simp add: load_store_bytes)
  have "load_bytes 4 (sp - 4) mem2 = load_bytes 4 (sp - 4) mem1"
    unfolding mem2_def
  proof (rule load_bytes_frame)
    fix i :: nat assume "i < 4"
    then have "unat (4 + of_nat i :: 32 word) = 4 + i"
      by (simp add: unat_word_ariths unat_of_nat)
    moreover have "sp - 4 + of_nat i - (sp - 8) = (4 + of_nat i :: 32 word)" by simp
    ultimately show "4 \<le> unat (sp - 4 + of_nat i - (sp - 8))" by simp
  qed simp
  also have "\<dots> = unat p2" unfolding mem1_def using lt by (simp add: load_store_bytes)
  finally have s1: "load_bytes 4 (sp - 4) mem2 = unat p2" .
  have "stack_slot m' 0 = p1" using s0 by (simp add: stack_slot_def m'_def)
  moreover have "stack_slot m' 1 = p2" using s1 by (simp add: stack_slot_def m'_def)
  ultimately show ?thesis using r by blast
qed

lemma take_bit_scast_32: "take_bit 32 (scast (p :: 32 word) :: 64 word) = ucast p"
proof (rule bit_word_eqI)
  fix n assume "n < LENGTH(64)"
  show "bit (take_bit 32 (scast p :: 64 word)) n = bit (ucast p :: 64 word) n"
  proof (cases "n < 32")
    case True
    then show ?thesis by (cases "n = 31") (auto simp: bit_simps min_def)
  next
    case False
    then have "\<not> bit p n" using bit_imp_le_length[of p n] by auto
    then show ?thesis using False by (simp add: bit_simps)
  qed
qed

lemma no_call_moves [simp]:
  "\<forall>i\<in>set (R_moves abi r). \<not> is_call i"
  "\<forall>i\<in>set (RR_moves abi r1 r2). \<not> is_call i"
  "\<forall>i\<in>set (A_moves abi a). \<not> is_call i"
  by (auto simp: R_moves_def RR_moves_def A_moves_def)

lemma before_call_call_instrs: "before_call (call_instrs func at @ js) = far_load func at"
  by (simp add: call_instrs_def far_load_def)

lemma at_call_call_site_64:
  assumes "\<forall>i\<in>set moves. \<not> is_call i"
  shows "at_call (call_site_64 abi np moves func s) m
         = run ((align_instrs abi 0 np @ moves)
                @ far_load func (code s + size_of s (align_instrs abi 0 np @ moves))) m"
proof -
  have "\<forall>i\<in>set (align_instrs abi 0 np @ moves). \<not> is_call i"
    using assms no_call_align[of abi 0 np] by auto
  then show ?thesis
    unfolding at_call_def call_site_64_def
    by (simp only: before_call_append before_call_call_instrs)
qed

lemma run_far_load:
  fixes m :: "64 word machine"
  shows "\<exists>v. run (far_load func at) m = Some (m\<lparr>gpr := (gpr m)(RAX := v)\<rparr>)
             \<and> (\<not> fits_rel32 (func - (at + 5)) \<longrightarrow> v = func)"
proof (cases "fits_rel32 (func - (at + 5))")
  case True
  have "m = m\<lparr>gpr := (gpr m)(RAX := gpr m RAX)\<rparr>" by simp
  then have "run [] m = Some (m\<lparr>gpr := (gpr m)(RAX := gpr m RAX)\<rparr>)" by simp
  then show ?thesis using True unfolding far_load_def
    by (intro exI[of _ "gpr m RAX"]) simp
next
  case False
  then show ?thesis by (simp add: far_load_def width_ok_def)
qed

lemma CC_moves_64:
  fixes m :: "64 word machine"
  assumes "M_X64 abi"
  shows "\<exists>m'. run [MOV 32 (R (ABI_PARAM1 abi)) (Imm32 p1), MOV 32 (R (ABI_PARAM2 abi)) (Imm32 p2)] m = Some m'
     \<and> gpr m' = (gpr m)(ABI_PARAM1 abi := ucast p1, ABI_PARAM2 abi := ucast p2)
     \<and> xmm m' = xmm m \<and> mem m' = mem m"
  using assms by (cases abi) (simp_all add: width_ok_def take_bit_scast_32)

lemma PARAM_regs:
  assumes "M_X64 abi"
  shows "ABI_PARAM1 abi \<noteq> ABI_PARAM2 abi" "ABI_PARAM1 abi \<noteq> RAX" "ABI_PARAM2 abi \<noteq> RAX"
    "ABI_PARAM1 abi \<noteq> RSP" "ABI_PARAM2 abi \<noteq> RSP"
    "has_reg 64 (ABI_PARAM1 abi)" "has_reg 64 (ABI_PARAM2 abi)"
  using assms by (cases abi; simp)+

lemma no_call_CC: "\<forall>i\<in>set [MOV b1 x1 y1, MOV b2 x2 y2]. \<not> is_call i"
  by simp

lemma CC_at_call_64:
  fixes m :: "64 word machine"
  assumes "M_X64 abi"
  shows "\<exists>m'. at_call (call_site_64 abi d [MOV 32 (R (ABI_PARAM1 abi)) (Imm32 p1),
                                            MOV 32 (R (ABI_PARAM2 abi)) (Imm32 p2)] func s) m = Some m'
     \<and> gpr m' (ABI_PARAM1 abi) = ucast p1 \<and> gpr m' (ABI_PARAM2 abi) = ucast p2"
proof -
  let ?mv = "[MOV 32 (R (ABI_PARAM1 abi)) (Imm32 p1), MOV 32 (R (ABI_PARAM2 abi)) (Imm32 p2)]"
  note P = PARAM_regs[OF assms]
  obtain sp where 1: "run (align_instrs abi 0 d) m = Some (m\<lparr>gpr := (gpr m)(RSP := sp)\<rparr>)"
    using run_align_64[OF assms] by blast
  obtain m2 where 2: "run ?mv (m\<lparr>gpr := (gpr m)(RSP := sp)\<rparr>) = Some m2"
    and g2: "gpr m2 = ((gpr m)(RSP := sp))(ABI_PARAM1 abi := ucast p1, ABI_PARAM2 abi := ucast p2)"
    using CC_moves_64[OF assms, of p1 p2 "m\<lparr>gpr := (gpr m)(RSP := sp)\<rparr>"] by auto
  obtain v where 3: "run (far_load func (code s + size_of s (align_instrs abi 0 d @ ?mv))) m2
      = Some (m2\<lparr>gpr := (gpr m2)(RAX := v)\<rparr>)"
    using run_far_load by blast
  have "at_call (call_site_64 abi d ?mv func s) m = Some (m2\<lparr>gpr := (gpr m2)(RAX := v)\<rparr>)"
    by (simp only: at_call_call_site_64[OF no_call_CC] run_append 1 2 3 option.case)
  then show ?thesis using g2 P by simp
qed

lemma CC_at_call_32:
  fixes m :: "32 word machine"
  assumes "M_IX86 abi"
  shows "\<exists>m'. at_call (align_instrs abi 8 d
                 @ [PUSH_bits 32 (Imm32 p2), PUSH_bits 32 (Imm32 p1), CALL func]
                 @ restore_instrs abi 8 d) m = Some m'
     \<and> stack_slot m' 0 = p1 \<and> stack_slot m' 1 = p2"
proof -
  obtain sp where 1: "run (align_instrs abi 8 d) m = Some (m\<lparr>gpr := (gpr m)(RSP := sp)\<rparr>)"
    using run_align_32[OF assms] by blast
  obtain m' where 2: "run [PUSH_bits 32 (Imm32 p2), PUSH_bits 32 (Imm32 p1)]
        (m\<lparr>gpr := (gpr m)(RSP := sp)\<rparr>) = Some m'"
    and s: "stack_slot m' 0 = p1" "stack_slot m' 1 = p2"
    using two_pushes_32 by blast
  have "before_call (align_instrs abi 8 d
                 @ [PUSH_bits 32 (Imm32 p2), PUSH_bits 32 (Imm32 p1), CALL func]
                 @ restore_instrs abi 8 d)
        = align_instrs abi 8 d @ [PUSH_bits 32 (Imm32 p2), PUSH_bits 32 (Imm32 p1)]"
    by (simp add: before_call_append)
  then have "at_call (align_instrs abi 8 d
                 @ [PUSH_bits 32 (Imm32 p2), PUSH_bits 32 (Imm32 p1), CALL func]
                 @ restore_instrs abi 8 d) m = Some m'"
    by (simp only: at_call_def run_append 1 2 option.case)
  then show ?thesis using s by blast
qed

lemma CallFunctionCC_32:
  assumes "M_IX86 abi"
  shows "written (ABI_CallFunctionCC abi d func p1 p2) s
        = align_instrs abi 8 d
          @ [PUSH_bits 32 (Imm32 p2), PUSH_bits 32 (Imm32 p1), CALL func]
          @ restore_instrs abi 8 d"
  using assms by (simp add: ABI_CallFunctionCC_def call_emitter_simps)

lemma take_bit_64 [simp]: "take_bit 64 (w :: 64 word) = w"
  by (simp add: take_bit_word_eq_self)

lemma RR_moves_run:
  fixes m :: "64 word machine"
  assumes "M_X64 abi" "has_reg 64 reg1" "has_reg 64 reg2"
    and "\<not> (reg1 = ABI_PARAM2 abi \<and> reg2 = ABI_PARAM1 abi)"
  shows "\<exists>m'. run (RR_moves abi reg1 reg2) m = Some m'
     \<and> gpr m' (ABI_PARAM1 abi) = gpr m reg1 \<and> gpr m' (ABI_PARAM2 abi) = gpr m reg2"
  using assms PARAM_regs[OF assms(1)]
  by (auto simp: RR_moves_def width_ok_def)

lemma RR_moves_swapped:
  fixes m :: "64 word machine"
  assumes "M_X64 abi"
  shows "\<exists>m'. run (RR_moves abi (ABI_PARAM2 abi) (ABI_PARAM1 abi)) m = Some m'
     \<and> gpr m' (ABI_PARAM1 abi) = gpr m (ABI_PARAM1 abi)
     \<and> gpr m' (ABI_PARAM2 abi) = gpr m (ABI_PARAM1 abi)"
  using PARAM_regs[OF assms]
  by (auto simp: RR_moves_def width_ok_def)

lemmas eval_simps =
  written_def call_near_or_far_def ABI_AlignStack_def ABI_RestoreStack_def
  ABI_GetAlignedFrameSize_def Let_def fresh_def five_bytes_def emit_def
  reg_at_call_def at_call_def machine_with_def width_ok_def

lemma call_site_64_far:
  assumes "\<not> fits_rel32 (func - (code s + size_of s (align_instrs abi 0 np @ moves) + 5))"
  shows "call_site_64 abi np moves func s
         = (align_instrs abi 0 np @ moves)
           @ [MOV 64 (R RAX) (Imm64 func), CALLptr (R RAX)]
           @ restore_instrs abi 0 np"
  using assms by (simp add: call_site_64_def call_instrs_def)

lemma at_call_far:
  fixes m :: "64 word machine"
  assumes "\<not> fits_rel32 (func - (code s + size_of s (align_instrs abi 0 np @ moves) + 5))"
    and "\<forall>i\<in>set moves. \<not> is_call i"
  shows "at_call (call_site_64 abi np moves func s) m
         = (case run (align_instrs abi 0 np @ moves) m of None \<Rightarrow> None
            | Some m1 \<Rightarrow> Some (m1\<lparr>gpr := (gpr m1)(RAX := func)\<rparr>))"
proof -
  have "far_load func (code s + size_of s (align_instrs abi 0 np @ moves))
        = [MOV 64 (R RAX) (Imm64 func)]"
    using assms(1) by (simp add: far_load_def)
  then show ?thesis
    by (simp add: at_call_call_site_64[OF assms(2)] run_append width_ok_def
        split: option.splits)
qed

lemma R_RAX_at_call:
  fixes m :: "64 word machine"
  assumes "M_X64 abi"
  shows "\<exists>m'. at_call (call_site_64 abi d (R_moves abi RAX) func s) m = Some m'
     \<and> gpr m' (ABI_PARAM1 abi) = take_bit 32 (gpr m RAX)
     \<and> (\<not> fits_rel32 (func - (code s + size_of s (align_instrs abi 0 d @ R_moves abi RAX) + 5))
          \<longrightarrow> gpr m' RAX = func)"
proof -
  note P = PARAM_regs[OF assms]
  obtain sp where 1: "run (align_instrs abi 0 d) m = Some (m\<lparr>gpr := (gpr m)(RSP := sp)\<rparr>)"
    using run_align_64[OF assms] by blast
  define m2 where "m2 = m\<lparr>gpr := (gpr m)(RSP := sp, ABI_PARAM1 abi := take_bit 32 (gpr m RAX))\<rparr>"
  have 2: "run (R_moves abi RAX) (m\<lparr>gpr := (gpr m)(RSP := sp)\<rparr>) = Some m2"
    using P by (simp add: R_moves_def width_ok_def m2_def)
  obtain v where 3: "run (far_load func (code s + size_of s (align_instrs abi 0 d @ R_moves abi RAX))) m2
      = Some (m2\<lparr>gpr := (gpr m2)(RAX := v)\<rparr>)"
    and v: "\<not> fits_rel32 (func - (code s + size_of s (align_instrs abi 0 d @ R_moves abi RAX) + 5))
          \<longrightarrow> v = func"
    using run_far_load by blast
  have "at_call (call_site_64 abi d (R_moves abi RAX) func s) m
        = Some (m2\<lparr>gpr := (gpr m2)(RAX := v)\<rparr>)"
    by (simp only: at_call_call_site_64[OF no_call_moves(1)] run_append 1 2 3 option.case)
  then show ?thesis using P v by (simp add: m2_def)
qed

section \<open>Pushing and popping, storing and loading\<close>

text \<open>
  The lemmas of this section hold in both modes: the machine's word has 32 or 64
  bits, and a push moves the stack pointer by the bytes of one word.
\<close>

lemma reg_bytes:
  assumes "LENGTH('a::len) = 32 \<or> LENGTH('a) = 64"
  shows "(256::nat) ^ (LENGTH('a) div 8) = 2 ^ LENGTH('a)"
    and "LENGTH('a) div 8 = 4 \<or> LENGTH('a) div 8 = 8"
    and "(4294967296::nat) \<le> 2 ^ LENGTH('a)"
  using assms by auto

lemma unat_of_nat_small: "k < 2 ^ LENGTH('a) \<Longrightarrow> unat (of_nat k :: 'a::len word) = k"
  by (simp add: unat_of_nat)

lemma unat_sub_of_nat:
  fixes x :: "'a::len word"
  assumes "k \<le> unat x"
  shows "unat (x - of_nat k) = unat x - k"
proof -
  have "unat x < 2 ^ LENGTH('a)" by (rule unsigned_less)
  with assms have "k < 2 ^ LENGTH('a)" by (rule le_less_trans)
  then have u: "unat (of_nat k :: 'a word) = k" by (rule unat_of_nat_small)
  then have "(of_nat k :: 'a word) \<le> x" using assms by (simp add: word_le_nat_alt)
  then show ?thesis using u by (simp add: unat_sub)
qed

lemma push_pop:
  fixes m :: "'a::len word machine"
  assumes L: "LENGTH('a) = 32 \<or> LENGTH('a) = 64"
    and "\<forall>r\<in>set rs. has_reg LENGTH('a) r" "length rs \<le> 16"
  shows "\<exists>m1. run (map PUSH rs) m = Some m1
      \<and> gpr m1 = (gpr m)(RSP := gpr m RSP - of_nat (LENGTH('a) div 8 * length rs))
      \<and> xmm m1 = xmm m
      \<and> (\<forall>a. LENGTH('a) div 8 * length rs \<le> unat (a - gpr m1 RSP) \<longrightarrow> mem m1 a = mem m a)
      \<and> (\<forall>m2. gpr m2 RSP = gpr m1 RSP
               \<and> (\<forall>a. unat (a - gpr m1 RSP) < LENGTH('a) div 8 * length rs \<longrightarrow> mem m2 a = mem m1 a)
           \<longrightarrow> (\<exists>m3. run (map POP (rev rs)) m2 = Some m3
                 \<and> gpr m3 RSP = gpr m RSP
                 \<and> (\<forall>r\<in>set rs. gpr m3 r = gpr m r)
                 \<and> (\<forall>r. r \<notin> set rs \<and> r \<noteq> RSP \<longrightarrow> gpr m3 r = gpr m2 r)
                 \<and> xmm m3 = xmm m2 \<and> mem m3 = mem m2))"
  using assms(2,3)
proof (induction rs arbitrary: m)
  case Nil
  show ?case by simp
next
  case (Cons r rs)
  define B where "B = LENGTH('a) div 8"
  have B48: "B = 4 \<or> B = 8" and B256: "(256::nat) ^ B = 2 ^ LENGTH('a)"
    and big: "(4294967296::nat) \<le> 2 ^ LENGTH('a)"
    using reg_bytes[where 'a='a, OF L] by (simp_all add: B_def)
  have B8: "B \<le> 8" using B48 by auto
  have Bbig: "B \<le> 2 ^ LENGTH('a)" using B8 big by simp
  define n where "n = length rs"
  define sp where "sp = gpr m RSP"
  define m' where "m' = push_value (gpr m r) m"
  have hr: "has_reg LENGTH('a) r" and hrs: "\<forall>r\<in>set rs. has_reg LENGTH('a) r" and len: "n \<le> 15"
    using Cons.prems by (simp_all add: n_def)
  have gm': "gpr m' = (gpr m)(RSP := sp - of_nat B)"
    and xm': "xmm m' = xmm m"
    and mm': "mem m' = store_bytes B (sp - of_nat B) (unat (gpr m r)) (mem m)"
    by (simp_all add: m'_def push_value_def Let_def sp_def B_def)
  have ex: "exec (PUSH r) m = Some m'" using hr by (simp add: m'_def)
  have len': "length rs \<le> 16" using len by (simp add: n_def)
  from Cons.IH[OF hrs len', of m'] obtain m1 where
    r1: "run (map PUSH rs) m' = Some m1"
    and g1: "gpr m1 = (gpr m')(RSP := gpr m' RSP - of_nat (B * n))"
    and x1: "xmm m1 = xmm m'"
    and f1': "\<forall>a. B * n \<le> unat (a - gpr m1 RSP) \<longrightarrow> mem m1 a = mem m' a"
    and p1': "\<forall>m2. gpr m2 RSP = gpr m1 RSP
               \<and> (\<forall>a. unat (a - gpr m1 RSP) < B * n \<longrightarrow> mem m2 a = mem m1 a)
           \<longrightarrow> (\<exists>m3. run (map POP (rev rs)) m2 = Some m3
                 \<and> gpr m3 RSP = gpr m' RSP
                 \<and> (\<forall>r\<in>set rs. gpr m3 r = gpr m' r)
                 \<and> (\<forall>r. r \<notin> set rs \<and> r \<noteq> RSP \<longrightarrow> gpr m3 r = gpr m2 r)
                 \<and> xmm m3 = xmm m2 \<and> mem m3 = mem m2)"
    unfolding n_def B_def by blast
  have f1: "mem m1 a = mem m' a" if "B * n \<le> unat (a - gpr m1 RSP)" for a
    using f1' that by blast
  have p1: "\<exists>m3. run (map POP (rev rs)) m2 = Some m3
                 \<and> gpr m3 RSP = gpr m' RSP
                 \<and> (\<forall>r\<in>set rs. gpr m3 r = gpr m' r)
                 \<and> (\<forall>r. r \<notin> set rs \<and> r \<noteq> RSP \<longrightarrow> gpr m3 r = gpr m2 r)
                 \<and> xmm m3 = xmm m2 \<and> mem m3 = mem m2"
    if "gpr m2 RSP = gpr m1 RSP"
      and "\<And>a. unat (a - gpr m1 RSP) < B * n \<Longrightarrow> mem m2 a = mem m1 a" for m2
    using p1' that by blast
  define sp1 where "sp1 = gpr m1 RSP"
  have sp1: "sp1 = sp - of_nat B - of_nat (B * n)" by (simp add: sp1_def g1 gm')
  have slot: "unat (sp - of_nat B + of_nat i - sp1) = B * n + i" if "i < B" for i
  proof -
    have "sp - of_nat B + of_nat i - sp1 = (of_nat (B * n + i) :: 'a word)" by (simp add: sp1)
    moreover have "B * n + i < 128" using len that B48 by auto
    then have "B * n + i < 2 ^ LENGTH('a)" using big by simp
    ultimately show ?thesis by (simp only: unat_of_nat_small)
  qed
  have frame: "mem m1 a = mem m a" if "B * Suc n \<le> unat (a - sp1)" for a
  proof -
    have "mem m1 a = mem m' a" using that f1[of a] by (simp add: sp1_def)
    moreover have e: "a - (sp - of_nat B) = (a - sp1) - of_nat (B * n)" by (simp add: sp1)
    have "unat ((a - sp1) - of_nat (B * n)) = unat (a - sp1) - B * n"
      using that by (intro unat_sub_of_nat) simp
    then have "unat (a - (sp - of_nat B)) = unat (a - sp1) - B * n" by (simp only: e)
    then have "\<not> unat (a - (sp - of_nat B)) < B" using that by simp
    then have "mem m' a = mem m a" by (simp add: mm' store_bytes_at[OF Bbig])
    ultimately show ?thesis by simp
  qed
  have pops: "\<exists>m3. run (map POP (rev (r # rs))) m2 = Some m3
                 \<and> gpr m3 RSP = gpr m RSP
                 \<and> (\<forall>r'\<in>set (r # rs). gpr m3 r' = gpr m r')
                 \<and> (\<forall>r'. r' \<notin> set (r # rs) \<and> r' \<noteq> RSP \<longrightarrow> gpr m3 r' = gpr m2 r')
                 \<and> xmm m3 = xmm m2 \<and> mem m3 = mem m2"
    if sp2: "gpr m2 RSP = sp1"
      and ag: "\<And>a. unat (a - sp1) < B * Suc n \<Longrightarrow> mem m2 a = mem m1 a" for m2
  proof -
    have ag': "mem m2 a = mem m1 a" if "unat (a - gpr m1 RSP) < B * n" for a
      using ag[of a] that by (simp add: sp1_def)
    from p1[of m2, OF sp2[unfolded sp1_def] ag'] obtain m3' where
      r3: "run (map POP (rev rs)) m2 = Some m3'"
      and g3': "gpr m3' RSP = gpr m' RSP"
      and s3': "\<forall>r'\<in>set rs. gpr m3' r' = gpr m' r'"
      and o3': "\<forall>r'. r' \<notin> set rs \<and> r' \<noteq> RSP \<longrightarrow> gpr m3' r' = gpr m2 r'"
      and x3: "xmm m3' = xmm m2" and mm3: "mem m3' = mem m2"
      by blast
    have g3: "gpr m3' RSP = sp - of_nat B" using g3' by (simp add: gm')
    have s3: "gpr m3' r' = gpr m' r'" if "r' \<in> set rs" for r' using s3' that by blast
    have o3: "gpr m3' r' = gpr m2 r'" if "r' \<notin> set rs" "r' \<noteq> RSP" for r'
      using o3' that by blast
    have "load_bytes B (sp - of_nat B) (mem m2) = load_bytes B (sp - of_nat B) (mem m')"
    proof (rule load_bytes_cong)
      fix i :: nat assume i: "i < B"
      have "mem m2 (sp - of_nat B + of_nat i) = mem m1 (sp - of_nat B + of_nat i)"
        using ag[of "sp - of_nat B + of_nat i"] slot[OF i] i by simp
      also have "\<dots> = mem m' (sp - of_nat B + of_nat i)"
        using f1[of "sp - of_nat B + of_nat i"] slot[OF i] by (simp add: sp1_def)
      finally show "mem m2 (sp - of_nat B + of_nat i) = mem m' (sp - of_nat B + of_nat i)" .
    qed
    also have "\<dots> = unat (gpr m r) mod 256 ^ B"
      by (simp add: mm' load_store_bytes[OF Bbig])
    also have "\<dots> = unat (gpr m r)"
    proof -
      have "unat (gpr m r) < 2 ^ LENGTH('a)" by (rule unsigned_less)
      then show ?thesis by (simp only: B256 mod_less)
    qed
    finally have ld: "load_bytes B (sp - of_nat B) (mem m2) = unat (gpr m r)" .
    define m3 where "m3 = m3'\<lparr>gpr := ((gpr m3')(RSP := sp))(r := gpr m r)\<rparr>"
    have "exec (POP r) m3' = Some m3"
      using hr g3 ld by (simp add: m3_def mm3 B_def[symmetric])
    then have "run (map POP (rev (r # rs))) m2 = Some m3"
      using r3 by (simp add: run_append)
    moreover have "gpr m3 RSP = gpr m RSP" by (simp add: m3_def sp_def)
    moreover have "gpr m3 r' = gpr m r'" if "r' \<in> set (r # rs)" for r'
    proof (cases "r' = r \<or> r' = RSP")
      case True
      then show ?thesis by (auto simp: m3_def sp_def)
    next
      case False
      then have "r' \<in> set rs" using that by simp
      then show ?thesis using False s3[of r'] by (simp add: m3_def gm')
    qed
    moreover have "gpr m3 r' = gpr m2 r'" if "r' \<notin> set (r # rs)" "r' \<noteq> RSP" for r'
      using that o3[of r'] by (simp add: m3_def)
    moreover have "xmm m3 = xmm m2" "mem m3 = mem m2" by (simp_all add: m3_def x3 mm3)
    ultimately show ?thesis by blast
  qed
  have fin1: "run (map PUSH (r # rs)) m = Some m1" using ex r1 by simp
  have fin2: "gpr m1 = (gpr m)(RSP := gpr m RSP - of_nat (B * length (r # rs)))"
    using g1 gm' by (simp add: n_def sp_def fun_eq_iff)
  have fin3: "xmm m1 = xmm m" using x1 xm' by simp
  have fin4: "\<forall>a. B * length (r # rs) \<le> unat (a - gpr m1 RSP) \<longrightarrow> mem m1 a = mem m a"
    using frame by (simp add: sp1_def n_def)
  have fin5: "\<forall>m2. gpr m2 RSP = gpr m1 RSP
               \<and> (\<forall>a. unat (a - gpr m1 RSP) < B * length (r # rs) \<longrightarrow> mem m2 a = mem m1 a)
           \<longrightarrow> (\<exists>m3. run (map POP (rev (r # rs))) m2 = Some m3
                 \<and> gpr m3 RSP = gpr m RSP
                 \<and> (\<forall>r'\<in>set (r # rs). gpr m3 r' = gpr m r')
                 \<and> (\<forall>r'. r' \<notin> set (r # rs) \<and> r' \<noteq> RSP \<longrightarrow> gpr m3 r' = gpr m2 r')
                 \<and> xmm m3 = xmm m2 \<and> mem m3 = mem m2)"
  proof (intro allI impI)
    fix m2 :: "'a word machine"
    assume h: "gpr m2 RSP = gpr m1 RSP
               \<and> (\<forall>a. unat (a - gpr m1 RSP) < B * length (r # rs) \<longrightarrow> mem m2 a = mem m1 a)"
    then have a: "gpr m2 RSP = sp1" by (simp add: sp1_def)
    have b: "mem m2 a = mem m1 a" if "unat (a - sp1) < B * Suc n" for a
      using h that by (simp add: sp1_def n_def)
    show "\<exists>m3. run (map POP (rev (r # rs))) m2 = Some m3
                 \<and> gpr m3 RSP = gpr m RSP
                 \<and> (\<forall>r'\<in>set (r # rs). gpr m3 r' = gpr m r')
                 \<and> (\<forall>r'. r' \<notin> set (r # rs) \<and> r' \<noteq> RSP \<longrightarrow> gpr m3 r' = gpr m2 r')
                 \<and> xmm m3 = xmm m2 \<and> mem m3 = mem m2"
      by (rule pops[OF a b])
  qed
  show ?case unfolding B_def[symmetric] by (intro exI[of _ m1] conjI fin1 fin2 fin3 fin4 fin5)
qed

lemma unat_sub_16:
  fixes u :: "'a::len word"
  assumes L: "LENGTH('a) = 32 \<or> LENGTH('a) = 64"
  shows "unat (u - 16) = (if 16 \<le> unat u then unat u - 16 else unat u + 2 ^ LENGTH('a) - 16)"
proof -
  have "(16::nat) < 2 ^ LENGTH('a)" using reg_bytes(3)[where 'a='a, OF L] by simp
  then have "unat (of_nat 16 :: 'a word) = 16" by (rule unat_of_nat_small)
  then have "unat (16 :: 'a word) = 16" by simp
  then show ?thesis using unat_sub_if_size[of u 16] by (simp add: word_size)
qed

lemma and_15_unat: "unat ((w::'a::len word) AND 15) = unat w mod 16"
proof -
  have "(15::'a word) = mask 4" by (simp add: mask_eq_exp_minus_1)
  then have "w AND 15 = take_bit 4 w" by (simp only: take_bit_eq_mask)
  then have "unat (w AND 15) = take_bit 4 (unat w)" by (simp only: unsigned_take_bit_eq)
  then show ?thesis by (simp only: take_bit_eq_mod) simp
qed

lemma aligned_iff: "(w::'a::len word) AND 15 = 0 \<longleftrightarrow> unat w mod 16 = 0"
  using and_15_unat[of w] by (metis unat_eq_zero)

lemma aligned_plus_16:
  fixes w :: "'a::len word"
  assumes L: "LENGTH('a) = 32 \<or> LENGTH('a) = 64" and "w AND 15 = 0"
  shows "(w + 16) AND 15 = 0"
proof -
  have a: "unat w mod 16 = 0" using assms(2) by (simp add: aligned_iff)
  have d: "(16::nat) dvd 2 ^ LENGTH('a)" using L by auto
  have "(16::nat) < 2 ^ LENGTH('a)" using reg_bytes(3)[where 'a='a, OF L] by simp
  then have "unat (of_nat 16 :: 'a word) = 16" by (rule unat_of_nat_small)
  then have "unat (16 :: 'a word) = 16" by simp
  then have "unat (w + 16) = (unat w + 16) mod 2 ^ LENGTH('a)" by (simp add: unat_word_ariths)
  then have "unat (w + 16) mod 16 = (unat w + 16) mod 2 ^ LENGTH('a) mod 16" by simp
  also have "\<dots> = (unat w + 16) mod 16"
    using d by (rule mod_mod_cancel)
  also have "\<dots> = 0" using a by simp
  finally show ?thesis by (simp add: aligned_iff)
qed

lemma store_load:
  fixes m :: "'a::len word machine"
  assumes L: "LENGTH('a) = 32 \<or> LENGTH('a) = 64"
    and "\<forall>x\<in>set xs. has_reg LENGTH('a) (X64Reg x)" "length xs \<le> 16"
    and "xs \<noteq> [] \<longrightarrow> (gpr m RSP + word_of_int off) AND 15 = 0"
  shows "\<exists>m1. run (map store_instr (xmm_slots off xs)) m = Some m1
      \<and> gpr m1 = gpr m \<and> xmm m1 = xmm m
      \<and> (\<forall>a. 16 * length xs \<le> unat (a - (gpr m RSP + word_of_int off)) \<longrightarrow> mem m1 a = mem m a)
      \<and> (\<forall>m2. gpr m2 RSP = gpr m RSP
               \<and> (\<forall>a. unat (a - (gpr m RSP + word_of_int off)) < 16 * length xs
                      \<longrightarrow> mem m2 a = mem m1 a)
           \<longrightarrow> (\<exists>m3. run (map load_instr (xmm_slots off xs)) m2 = Some m3
                 \<and> gpr m3 = gpr m2 \<and> mem m3 = mem m2
                 \<and> (\<forall>x\<in>set xs. xmm m3 (X64Reg x) = xmm m (X64Reg x))
                 \<and> (\<forall>r. r \<notin> X64Reg ` set xs \<longrightarrow> xmm m3 r = xmm m2 r)))"
  using assms(2,3,4)
proof (induction xs arbitrary: off m)
  case Nil
  show ?case by simp
next
  case (Cons x xs)
  have big: "(4294967296::nat) \<le> 2 ^ LENGTH('a)" by (rule reg_bytes(3)[where 'a='a, OF L])
  have sixteen: "(16::nat) \<le> 2 ^ LENGTH('a)" using big by simp
  have hsp: "has_reg LENGTH('a) RSP" using L by auto
  define n where "n = length xs"
  define b where "b = gpr m RSP + word_of_int off"
  define m' where "m' = m\<lparr>mem := store_bytes 16 b (unat (xmm m (X64Reg x))) (mem m)\<rparr>"
  have hx: "has_reg LENGTH('a) (X64Reg x)" and hxs: "\<forall>x\<in>set xs. has_reg LENGTH('a) (X64Reg x)"
    and len: "n \<le> 15" and al: "b AND 15 = 0"
    using Cons.prems by (simp_all add: n_def b_def)
  have len': "length xs \<le> 16" using len by (simp add: n_def)
  have b': "gpr m' RSP + word_of_int (off + 16) = b + 16" by (simp add: m'_def b_def)
  have al': "xs \<noteq> [] \<longrightarrow> (gpr m' RSP + word_of_int (off + 16)) AND 15 = 0"
    using aligned_plus_16[OF L al] by (simp only: b') simp
  have ex: "exec (store_instr (x, off)) m = Some m'"
    using hx hsp al by (simp add: store_instr_def m'_def b_def)
  from Cons.IH[OF hxs len' al'] obtain m1 where
    r1: "run (map store_instr (xmm_slots (off + 16) xs)) m' = Some m1"
    and g1: "gpr m1 = gpr m'" and x1: "xmm m1 = xmm m'"
    and f1': "\<forall>a. 16 * n \<le> unat (a - (b + 16)) \<longrightarrow> mem m1 a = mem m' a"
    and p1': "\<forall>m2. gpr m2 RSP = gpr m' RSP
               \<and> (\<forall>a. unat (a - (b + 16)) < 16 * n \<longrightarrow> mem m2 a = mem m1 a)
           \<longrightarrow> (\<exists>m3. run (map load_instr (xmm_slots (off + 16) xs)) m2 = Some m3
                 \<and> gpr m3 = gpr m2 \<and> mem m3 = mem m2
                 \<and> (\<forall>x\<in>set xs. xmm m3 (X64Reg x) = xmm m' (X64Reg x))
                 \<and> (\<forall>r. r \<notin> X64Reg ` set xs \<longrightarrow> xmm m3 r = xmm m2 r))"
    unfolding n_def b' by blast
  have f1: "mem m1 a = mem m' a" if "16 * n \<le> unat (a - (b + 16))" for a
    using f1' that by blast
  have gm': "gpr m' = gpr m" and xm': "xmm m' = xmm m" by (simp_all add: m'_def)
  have shift: "a - (b + 16) = (a - b) - 16" for a by simp
  have fin4: "\<forall>a. 16 * length (x # xs) \<le> unat (a - b) \<longrightarrow> mem m1 a = mem m a"
  proof (intro allI impI)
    fix a assume h: "16 * length (x # xs) \<le> unat (a - b)"
    then have "16 * n \<le> unat ((a - b) - 16)" by (simp add: unat_sub_16[OF L] n_def)
    then have "mem m1 a = mem m' a" using f1[of a] by (simp only: shift)
    moreover have "\<not> unat (a - b) < 16" using h by simp
    then have "mem m' a = mem m a" by (simp add: m'_def store_bytes_at[OF sixteen])
    ultimately show "mem m1 a = mem m a" by simp
  qed
  have fin5: "\<forall>m2. gpr m2 RSP = gpr m RSP
               \<and> (\<forall>a. unat (a - b) < 16 * length (x # xs) \<longrightarrow> mem m2 a = mem m1 a)
           \<longrightarrow> (\<exists>m3. run (map load_instr (xmm_slots off (x # xs))) m2 = Some m3
                 \<and> gpr m3 = gpr m2 \<and> mem m3 = mem m2
                 \<and> (\<forall>x'\<in>set (x # xs). xmm m3 (X64Reg x') = xmm m (X64Reg x'))
                 \<and> (\<forall>r. r \<notin> X64Reg ` set (x # xs) \<longrightarrow> xmm m3 r = xmm m2 r))"
  proof (intro allI impI)
    fix m2 :: "'a word machine"
    assume h: "gpr m2 RSP = gpr m RSP
               \<and> (\<forall>a. unat (a - b) < 16 * length (x # xs) \<longrightarrow> mem m2 a = mem m1 a)"
    then have sp2: "gpr m2 RSP = gpr m RSP" by simp
    have ag: "mem m2 a = mem m1 a" if "unat (a - b) < 16 * Suc n" for a
      using h that by (simp add: n_def)
    define m2' where
      "m2' = m2\<lparr>xmm := (xmm m2)(X64Reg x := of_nat (load_bytes 16 b (mem m2)))\<rparr>"
    have e2: "exec (load_instr (x, off)) m2 = Some m2'"
      using hx hsp al sp2 by (simp add: load_instr_def m2'_def b_def)
    have "load_bytes 16 b (mem m2) = load_bytes 16 b (mem m')"
    proof (rule load_bytes_cong)
      fix i :: nat assume i: "i < 16"
      then have "i < 2 ^ LENGTH('a)" using sixteen by simp
      then have u: "unat (of_nat i :: 'a word) = i" by (rule unat_of_nat_small)
      have d: "b + of_nat i - b = (of_nat i :: 'a word)" by simp
      have "mem m2 (b + of_nat i) = mem m1 (b + of_nat i)"
        using ag[of "b + of_nat i"] i u by (simp only: d) simp
      also have "16 * n \<le> unat ((of_nat i :: 'a word) - 16)"
        using i u len big by (simp add: unat_sub_16[OF L])
      then have "mem m1 (b + of_nat i) = mem m' (b + of_nat i)"
        using f1[of "b + of_nat i"] by (simp only: shift d)
      finally show "mem m2 (b + of_nat i) = mem m' (b + of_nat i)" .
    qed
    also have "\<dots> = unat (xmm m (X64Reg x)) mod 256 ^ 16"
      by (simp add: m'_def load_store_bytes[OF sixteen])
    also have "\<dots> = unat (xmm m (X64Reg x))"
    proof -
      have "unat (xmm m (X64Reg x)) < 2 ^ 128"
        using unsigned_less[of "xmm m (X64Reg x)"] by simp
      then show ?thesis by simp
    qed
    finally have ld: "xmm m2' (X64Reg x) = xmm m (X64Reg x)" by (simp add: m2'_def)
    have ag2: "\<forall>a. unat (a - (b + 16)) < 16 * n \<longrightarrow> mem m2' a = mem m1 a"
    proof (intro allI impI)
      fix a assume "unat (a - (b + 16)) < 16 * n"
      then have "unat ((a - b) - 16) < 16 * n" by (simp only: shift)
      then have "unat (a - b) < 16 * Suc n" using len
        by (simp add: unat_sub_16[OF L] split: if_splits)
      then show "mem m2' a = mem m1 a" using ag[of a] by (simp add: m2'_def)
    qed
    have "gpr m2' RSP = gpr m' RSP" using sp2 by (simp add: m2'_def gm')
    with p1' ag2 obtain m3 where
      r3: "run (map load_instr (xmm_slots (off + 16) xs)) m2' = Some m3"
      and g3: "gpr m3 = gpr m2'" and mm3: "mem m3 = mem m2'"
      and s3: "\<forall>x\<in>set xs. xmm m3 (X64Reg x) = xmm m' (X64Reg x)"
      and o3: "\<forall>r. r \<notin> X64Reg ` set xs \<longrightarrow> xmm m3 r = xmm m2' r"
      by blast
    have "run (map load_instr (xmm_slots off (x # xs))) m2 = Some m3"
      using e2 r3 by simp
    moreover have "gpr m3 = gpr m2" "mem m3 = mem m2" using g3 mm3 by (simp_all add: m2'_def)
    moreover have "xmm m3 (X64Reg x') = xmm m (X64Reg x')" if "x' \<in> set (x # xs)" for x'
    proof (cases "x' \<in> set xs")
      case True
      then show ?thesis using s3 xm' by simp
    next
      case False
      then have "x' = x" using that by simp
      moreover have "X64Reg x \<notin> X64Reg ` set xs" using False \<open>x' = x\<close> by auto
      ultimately show ?thesis using o3 ld by simp
    qed
    moreover have "xmm m3 r = xmm m2 r" if "r \<notin> X64Reg ` set (x # xs)" for r
      using that o3 by (simp add: m2'_def)
    ultimately show "\<exists>m3. run (map load_instr (xmm_slots off (x # xs))) m2 = Some m3
                 \<and> gpr m3 = gpr m2 \<and> mem m3 = mem m2
                 \<and> (\<forall>x'\<in>set (x # xs). xmm m3 (X64Reg x') = xmm m (X64Reg x'))
                 \<and> (\<forall>r. r \<notin> X64Reg ` set (x # xs) \<longrightarrow> xmm m3 r = xmm m2 r)"
      by blast
  qed
  have fin1: "run (map store_instr (xmm_slots off (x # xs))) m = Some m1"
    using ex r1 by simp
  have fin2: "gpr m1 = gpr m" using g1 gm' by simp
  have fin3: "xmm m1 = xmm m" using x1 xm' by simp
  show ?case
    unfolding b_def[symmetric]
    by (intro exI[of _ m1] conjI fin1 fin2 fin3 fin4 fin5)
qed

lemma unat_add_of_nat:
  fixes u :: "'a::len word"
  assumes "unat u + k < 2 ^ LENGTH('a)"
  shows "unat (u + of_nat k) = unat u + k"
proof -
  have "k < 2 ^ LENGTH('a)" using assms by simp
  then have "unat (of_nat k :: 'a word) = k" by (rule unat_of_nat_small)
  then show ?thesis using assms by (simp add: unat_word_ariths)
qed

lemma uint_and_15: "uint ((w::'a::len word) AND 15) = uint w mod 16"
proof -
  have "int (unat (w AND 15)) = int (unat w mod 16)" by (simp only: and_15_unat)
  then show ?thesis by (simp add: zmod_int)
qed

lemma int_and_15: "(k::int) AND 15 = k mod 16"
proof -
  have "(15::int) = mask 4" by (simp add: mask_eq_exp_minus_1)
  then have "k AND 15 = take_bit 4 k" by (simp add: take_bit_eq_mask)
  then show ?thesis by (simp add: take_bit_eq_mod)
qed

lemma uint_sub_mod_16:
  fixes w :: "'a::len word"
  assumes L: "LENGTH('a) = 32 \<or> LENGTH('a) = 64"
  shows "uint (w - word_of_int k) mod 16 = (uint w - k) mod 16"
proof -
  have d: "(16::int) dvd 2 ^ LENGTH('a)" using L by auto
  have "uint (w - word_of_int k) = (uint w - k mod 2 ^ LENGTH('a)) mod 2 ^ LENGTH('a)"
    by (simp add: uint_word_ariths uint_word_of_int)
  also have "\<dots> mod 16 = (uint w - k mod 2 ^ LENGTH('a)) mod 16"
    using d by (rule mod_mod_cancel)
  also have "\<dots> = (uint w - (k mod 2 ^ LENGTH('a)) mod 16) mod 16"
    by (simp add: mod_diff_right_eq)
  also have "(k mod 2 ^ LENGTH('a)) mod 16 = k mod 16"
    using d by (rule mod_mod_cancel)
  also have "(uint w - k mod 16) mod 16 = (uint w - k) mod 16"
    by (simp add: mod_diff_right_eq)
  finally show ?thesis .
qed

lemma slots_aligned:
  fixes sp0 :: "'a::len word"
  assumes L: "LENGTH('a) = 32 \<or> LENGTH('a) = 64"
    and "B = 4 \<or> B = 8"
    and "uint sp0 mod 16 = (if noProlog then 16 - B else 0)"
  shows "(sp0 - word_of_int (B * c + (((if noProlog then - B else 0) - c * B) AND 0xf) + 16 * n))
          AND 15 = 0"
proof -
  have "(uint sp0 - (B * c + ((if noProlog then - B else 0) - c * B) mod 16 + 16 * n)) mod 16 = 0"
    using assms(2,3) by (cases noProlog; elim disjE; simp; presburger)
  then have "uint ((sp0 - word_of_int (B * c + (((if noProlog then - B else 0) - c * B) AND 0xf) + 16 * n))
          AND 15) = 0"
    by (simp only: uint_and_15 uint_sub_mod_16[OF L] int_and_15)
  then show ?thesis by (simp only: uint_0_iff)
qed

lemma read_size_imm:
  fixes m :: "'a::len word machine"
  assumes "0 \<le> sz" "sz \<le> 303"
  shows "read_op LENGTH('a) (size_imm sz) m = Some (word_of_int sz)"
  using assms by (simp add: size_imm_def scast_eq sint_small8 sint_small32)

lemma run_adjust_sub:
  fixes m :: "'a::len word machine"
  assumes L: "LENGTH('a) = 32 \<or> LENGTH('a) = 64" and "0 \<le> sz" "sz \<le> 303"
  shows "run (if sz = 0 then [] else [SUB LENGTH('a) (R RSP) (size_imm sz)]) m
         = Some (m\<lparr>gpr := (gpr m)(RSP := gpr m RSP - word_of_int sz)\<rparr>)"
proof -
  have "has_reg LENGTH('a) RSP" "width_ok LENGTH('a) LENGTH('a)"
    using L by (auto simp: width_ok_def)
  then show ?thesis using read_size_imm[OF assms(2,3), of m] by simp
qed

lemma run_adjust_add:
  fixes m :: "'a::len word machine"
  assumes L: "LENGTH('a) = 32 \<or> LENGTH('a) = 64" and "0 \<le> sz" "sz \<le> 303"
  shows "run (if sz = 0 then [] else [ADD LENGTH('a) (R RSP) (size_imm sz)]) m
         = Some (m\<lparr>gpr := (gpr m)(RSP := gpr m RSP + word_of_int sz)\<rparr>)"
proof -
  have "has_reg LENGTH('a) RSP" "width_ok LENGTH('a) LENGTH('a)"
    using L by (auto simp: width_ok_def)
  then show ?thesis using read_size_imm[OF assms(2,3), of m] by simp
qed

lemma round_trip:
  fixes m0 :: "'a::len word machine"
  assumes mode: "LENGTH('a) = (if M_X64 abi then 64 else 32)"
    and regs: "\<forall>r\<in>set (selected_gprs msk @ selected_xmms msk). has_reg LENGTH('a) (X64Reg r)"
    and al: "selected_xmms msk \<noteq> [] \<longrightarrow>
             gpr m0 RSP AND 15 = (if noProlog then (if M_X64 abi then 8 else 12) else 0)"
  shows "\<exists>m1. run (push_instrs abi msk noProlog) m0 = Some m1
          \<and> gpr m1 RSP = gpr m0 RSP - word_of_int (saved_bytes abi msk noProlog)
          \<and> (\<forall>m2. gpr m2 RSP = gpr m1 RSP
                  \<and> (\<forall>a. unat (a - gpr m1 RSP) < nat (saved_bytes abi msk noProlog)
                         \<longrightarrow> mem m2 a = mem m1 a)
               \<longrightarrow> (\<exists>m3. run (pop_instrs abi msk noProlog) m2 = Some m3
                      \<and> gpr m3 RSP = gpr m0 RSP
                      \<and> (\<forall>r\<in>set (selected_gprs msk). gpr m3 (X64Reg r) = gpr m0 (X64Reg r))
                      \<and> (\<forall>x\<in>set (selected_xmms msk). xmm m3 (X64Reg x) = xmm m0 (X64Reg x))))"
proof -
  have L: "LENGTH('a) = 32 \<or> LENGTH('a) = 64" using mode by (simp split: if_splits)
  have big: "(4294967296::nat) \<le> 2 ^ LENGTH('a)" by (rule reg_bytes(3)[where 'a='a, OF L])
  define B :: nat where "B = (if M_X64 abi then 8 else 4)"
  have BL: "LENGTH('a) div 8 = B" using mode by (simp add: B_def)
  have B48: "B = 4 \<or> B = 8" by (simp add: B_def)
  have iB: "(if M_X64 abi then 8 else 4) = int B" by (simp add: B_def)
  define gs where "gs = selected_gprs msk"
  define xs where "xs = selected_xmms msk"
  define rs where "rs = map X64Reg gs"
  define c where "c = length gs"
  define n where "n = length xs"
  define sh where "sh = nat (shadow_space abi)"
  define sz where "sz = nat (adjust_size abi msk noProlog)"
  define sp0 where "sp0 = gpr m0 RSP"
  have c16: "c \<le> 16" and n16: "n \<le> 16"
    using length_selected[of msk] by (simp_all add: c_def n_def gs_def xs_def)
  have Bc: "B * c \<le> 128" using c16 B48 by auto
  have sh32: "shadow_space abi = int sh" "sh \<le> 32"
    by (simp_all add: sh_def shadow_space_def)
  have szr: "0 \<le> adjust_size abi msk noProlog" "adjust_size abi msk noProlog \<le> 303"
    using adjust_size_range[of abi msk noProlog] by simp_all
  have sz1: "adjust_size abi msk noProlog = int sz" using szr by (simp add: sz_def)
  then have "int sz \<le> 303" using szr by simp
  then have sz2: "sz \<le> 303" by simp
  note sz = sz1 sz2
  have szl: "16 * n + sh \<le> sz"
    using adjust_size_lower[of msk abi noProlog] sh32 sz by (simp add: n_def xs_def)
  have tot: "saved_bytes abi msk noProlog = int (B * c + sz)"
    using sz by (simp add: saved_bytes_def c_def gs_def iB)
  have tot': "nat (saved_bytes abi msk noProlog) = B * c + sz" by (simp only: tot nat_int)
  have hrs: "\<forall>r\<in>set rs. has_reg LENGTH('a) r" using regs by (simp add: rs_def gs_def)
  have hxs: "\<forall>x\<in>set xs. has_reg LENGTH('a) (X64Reg x)" using regs by (simp add: xs_def)
  have lrs: "length rs \<le> 16" using c16 by (simp add: rs_def c_def)
  from push_pop[OF L hrs lrs, of m0] obtain mA where
    rA: "run (map PUSH rs) m0 = Some mA"
    and gA: "gpr mA = (gpr m0)(RSP := sp0 - of_nat (B * c))"
    and xA: "xmm mA = xmm m0"
    and pA: "\<forall>m2. gpr m2 RSP = gpr mA RSP
               \<and> (\<forall>a. unat (a - gpr mA RSP) < B * c \<longrightarrow> mem m2 a = mem mA a)
           \<longrightarrow> (\<exists>m3. run (map POP (rev rs)) m2 = Some m3
                 \<and> gpr m3 RSP = gpr m0 RSP
                 \<and> (\<forall>r\<in>set rs. gpr m3 r = gpr m0 r)
                 \<and> (\<forall>r. r \<notin> set rs \<and> r \<noteq> RSP \<longrightarrow> gpr m3 r = gpr m2 r)
                 \<and> xmm m3 = xmm m2 \<and> mem m3 = mem m2)"
    unfolding sp0_def BL by (auto simp: rs_def c_def)
  define spA where "spA = sp0 - of_nat (B * c)"
  have spA: "gpr mA RSP = spA" by (simp add: gA spA_def)
  define mB where "mB = mA\<lparr>gpr := (gpr mA)(RSP := spA - of_nat sz)\<rparr>"
  have rB: "run (if adjust_size abi msk noProlog = 0 then []
                 else [SUB LENGTH('a) (R RSP) (size_imm (adjust_size abi msk noProlog))]) mA = Some mB"
    using run_adjust_sub[OF L szr, of mA] by (simp add: mB_def spA sz(1))
  define sp1 where "sp1 = spA - of_nat sz"
  have spB: "gpr mB RSP = sp1" by (simp add: mB_def sp1_def)
  have vb: "gpr mB RSP + word_of_int (shadow_space abi) = sp1 + of_nat sh"
    by (simp add: spB sh32(1))
  have alB: "xs \<noteq> [] \<longrightarrow> (gpr mB RSP + word_of_int (shadow_space abi)) AND 15 = 0"
  proof
    assume "xs \<noteq> []"
    then have a0: "sp0 AND 15 = (if noProlog then (if M_X64 abi then 8 else 12) else 0)"
      using al by (simp add: xs_def sp0_def)
    have "uint (sp0 AND 15) = (if noProlog then (if M_X64 abi then 8 else 12) else 0)"
      using L by (simp only: a0) (auto simp: uint_word_of_int)
    then have a1: "uint sp0 mod 16 = (if noProlog then 16 - int B else 0)"
      by (simp add: uint_and_15 B_def)
    have iB48: "int B = 4 \<or> int B = 8" using B48 by auto
    have "adjust_size abi msk noProlog
          = (((if noProlog then - int B else 0) - int c * int B) AND 0xf) + 16 * int n + int sh"
      by (simp only: adjust_size_def c_def n_def gs_def xs_def sh32(1) iB)
    then have "int sz - int sh = (((if noProlog then - int B else 0) - int c * int B) AND 0xf) + 16 * int n"
      using sz(1) by simp
    then have eq1: "int (B * c) + int sz - int sh
        = int B * int c + (((if noProlog then - int B else 0) - int c * int B) AND 0xf) + 16 * int n"
      by simp
    have eq2: "sp1 + of_nat sh = sp0 - word_of_int (int (B * c) + int sz - int sh)"
      by (simp add: sp1_def spA_def)
    have "sp1 + of_nat sh = sp0 - word_of_int
        (int B * int c + (((if noProlog then - int B else 0) - int c * int B) AND 0xf) + 16 * int n)"
      using eq2 by (simp only: eq1)
    then show "(gpr mB RSP + word_of_int (shadow_space abi)) AND 15 = 0"
      using slots_aligned[OF L iB48 a1, of "int c" "int n"] by (simp only: vb)
  qed
  have lxs: "length xs \<le> 16" using n16 by (simp add: n_def)
  from store_load[OF L hxs lxs alB] obtain m1 where
    r1: "run (map store_instr (xmm_slots (shadow_space abi) xs)) mB = Some m1"
    and g1: "gpr m1 = gpr mB" and x1: "xmm m1 = xmm mB"
    and f1: "\<forall>a. 16 * n \<le> unat (a - (sp1 + of_nat sh)) \<longrightarrow> mem m1 a = mem mB a"
    and p1: "\<forall>m2. gpr m2 RSP = gpr mB RSP
               \<and> (\<forall>a. unat (a - (sp1 + of_nat sh)) < 16 * n \<longrightarrow> mem m2 a = mem m1 a)
           \<longrightarrow> (\<exists>m3. run (map load_instr (xmm_slots (shadow_space abi) xs)) m2 = Some m3
                 \<and> gpr m3 = gpr m2 \<and> mem m3 = mem m2
                 \<and> (\<forall>x\<in>set xs. xmm m3 (X64Reg x) = xmm mB (X64Reg x))
                 \<and> (\<forall>r. r \<notin> X64Reg ` set xs \<longrightarrow> xmm m3 r = xmm m2 r))"
    unfolding vb n_def by blast
  have pn: "map PUSH_nr gs = map PUSH rs" "map POP_nr (rev gs) = map POP (rev rs)"
    by (simp_all add: rs_def PUSH_nr_def[abs_def] POP_nr_def[abs_def] comp_def rev_map)
  have w: "(if M_X64 abi then 64 else 32) = LENGTH('a)" using mode by simp
  have run1: "run (push_instrs abi msk noProlog) m0 = Some m1"
    unfolding push_instrs_def
    by (simp only: run_append gs_def[symmetric] xs_def[symmetric] pn w rA rB r1 option.case)
  have sp1m: "gpr m1 RSP = sp0 - word_of_int (saved_bytes abi msk noProlog)"
    by (simp add: g1 spB sp1_def spA_def tot)
  have rest: "\<exists>m3. run (pop_instrs abi msk noProlog) m2 = Some m3
                      \<and> gpr m3 RSP = gpr m0 RSP
                      \<and> (\<forall>r\<in>set gs. gpr m3 (X64Reg r) = gpr m0 (X64Reg r))
                      \<and> (\<forall>x\<in>set xs. xmm m3 (X64Reg x) = xmm m0 (X64Reg x))"
    if sp2: "gpr m2 RSP = sp1"
      and ag: "\<And>a. unat (a - sp1) < B * c + sz \<Longrightarrow> mem m2 a = mem m1 a"
    for m2 :: "'a word machine"
  proof -
    have ag1: "\<forall>a. unat (a - (sp1 + of_nat sh)) < 16 * n \<longrightarrow> mem m2 a = mem m1 a"
    proof (intro allI impI)
      fix a assume h: "unat (a - (sp1 + of_nat sh)) < 16 * n"
      have "a - sp1 = (a - (sp1 + of_nat sh)) + of_nat sh" by simp
      moreover have "unat ((a - (sp1 + of_nat sh)) + of_nat sh) = unat (a - (sp1 + of_nat sh)) + sh"
        using h n16 sh32(2) big by (intro unat_add_of_nat) simp
      ultimately have "unat (a - sp1) < B * c + sz" using h szl by simp
      then show "mem m2 a = mem m1 a" by (rule ag)
    qed
    from p1 sp2 spB ag1 obtain mC where
      rC: "run (map load_instr (xmm_slots (shadow_space abi) xs)) m2 = Some mC"
      and gC: "gpr mC = gpr m2" and mmC: "mem mC = mem m2"
      and sC: "\<forall>x\<in>set xs. xmm mC (X64Reg x) = xmm mB (X64Reg x)"
      by (metis (no_types, lifting))
    define mD where "mD = mC\<lparr>gpr := (gpr mC)(RSP := spA)\<rparr>"
    have "sp1 + of_nat sz = spA" by (simp add: sp1_def)
    then have rD: "run (if adjust_size abi msk noProlog = 0 then []
                 else [ADD LENGTH('a) (R RSP) (size_imm (adjust_size abi msk noProlog))]) mC = Some mD"
      using run_adjust_add[OF L szr, of mC] by (simp add: mD_def gC sp2 sz(1))
    have agA: "\<forall>a. unat (a - gpr mA RSP) < B * c \<longrightarrow> mem mD a = mem mA a"
    proof (intro allI impI)
      fix a assume "unat (a - gpr mA RSP) < B * c"
      then have h: "unat (a - spA) < B * c" by (simp add: spA)
      have e1: "a - sp1 = (a - spA) + of_nat sz" by (simp add: sp1_def)
      have "unat ((a - spA) + of_nat sz) = unat (a - spA) + sz"
        using h Bc sz(2) big by (intro unat_add_of_nat) simp
      then have u1: "unat (a - sp1) = unat (a - spA) + sz" by (simp only: e1)
      then have "mem m2 a = mem m1 a" using h by (intro ag) simp
      moreover have e2: "a - (sp1 + of_nat sh) = (a - spA) + of_nat (sz - sh)"
        using szl by (simp add: sp1_def)
      have "unat ((a - spA) + of_nat (sz - sh)) = unat (a - spA) + (sz - sh)"
        using h Bc sz(2) big by (intro unat_add_of_nat) simp
      then have "16 * n \<le> unat ((a - spA) + of_nat (sz - sh))" using szl by simp
      then have "16 * n \<le> unat (a - (sp1 + of_nat sh))" by (simp only: e2)
      then have "mem m1 a = mem mB a" using f1 by blast
      ultimately show "mem mD a = mem mA a" by (simp add: mD_def mmC mB_def)
    qed
    have "gpr mD RSP = gpr mA RSP" by (simp add: mD_def spA)
    with pA agA obtain m3 where
      r3: "run (map POP (rev rs)) mD = Some m3"
      and g3: "gpr m3 RSP = gpr m0 RSP"
      and s3: "\<forall>r\<in>set rs. gpr m3 r = gpr m0 r"
      and x3: "xmm m3 = xmm mD"
      by (metis (no_types, lifting))
    have "run (pop_instrs abi msk noProlog) m2 = Some m3"
      unfolding pop_instrs_def
      by (simp only: run_append gs_def[symmetric] xs_def[symmetric] pn w rC rD r3 option.case)
    moreover have "\<forall>r\<in>set gs. gpr m3 (X64Reg r) = gpr m0 (X64Reg r)"
      using s3 by (simp add: rs_def)
    moreover have "\<forall>x\<in>set xs. xmm m3 (X64Reg x) = xmm m0 (X64Reg x)"
      using sC by (simp add: x3 mD_def mB_def xA)
    ultimately show ?thesis using g3 by blast
  qed
  have fin: "\<forall>m2. gpr m2 RSP = gpr m1 RSP
                  \<and> (\<forall>a. unat (a - gpr m1 RSP) < nat (saved_bytes abi msk noProlog)
                         \<longrightarrow> mem m2 a = mem m1 a)
               \<longrightarrow> (\<exists>m3. run (pop_instrs abi msk noProlog) m2 = Some m3
                      \<and> gpr m3 RSP = gpr m0 RSP
                      \<and> (\<forall>r\<in>set (selected_gprs msk). gpr m3 (X64Reg r) = gpr m0 (X64Reg r))
                      \<and> (\<forall>x\<in>set (selected_xmms msk). xmm m3 (X64Reg x) = xmm m0 (X64Reg x)))"
  proof (intro allI impI)
    fix m2 :: "'a word machine"
    assume h: "gpr m2 RSP = gpr m1 RSP
                  \<and> (\<forall>a. unat (a - gpr m1 RSP) < nat (saved_bytes abi msk noProlog)
                         \<longrightarrow> mem m2 a = mem m1 a)"
    have a: "gpr m2 RSP = sp1" using h by (simp add: g1 spB)
    have b: "mem m2 a = mem m1 a" if "unat (a - sp1) < B * c + sz" for a
      using h that by (simp add: g1 spB tot')
    show "\<exists>m3. run (pop_instrs abi msk noProlog) m2 = Some m3
                      \<and> gpr m3 RSP = gpr m0 RSP
                      \<and> (\<forall>r\<in>set (selected_gprs msk). gpr m3 (X64Reg r) = gpr m0 (X64Reg r))
                      \<and> (\<forall>x\<in>set (selected_xmms msk). xmm m3 (X64Reg x) = xmm m0 (X64Reg x))"
      using rest[OF a b] by (simp only: gs_def xs_def)
  qed
  show ?thesis
    using run1 sp1m fin unfolding sp0_def by blast
qed

lemma xmm_slots_fst: "map fst (xmm_slots off xs) = xs"
  by (induction xs arbitrary: off) simp_all

lemma xmm_slots_snd:
  "map snd (xmm_slots off xs) = map (\<lambda>i. off + 16 * int i) [0..<length xs]"
proof (induction xs arbitrary: off)
  case Nil
  show ?case by simp
next
  case (Cons x xs)
  have "[0..<length (x # xs)] = 0 # map Suc [0..<length xs]"
    by (simp add: upt_conv_Cons map_Suc_upt del: upt_Suc)
  then show ?case using Cons.IH[of "off + 16"]
    by (simp add: comp_def algebra_simps del: upt_Suc)
qed

lemma selected_ascending:
  "sorted_wrt (<) (selected_gprs msk)" "sorted_wrt (<) (selected_xmms msk)"
  by (simp_all add: selected_gprs_def selected_xmms_def sorted_wrt_filter)

lemma selected_0x30009:
  "selected_gprs 0x30009 = [0, 3]" "selected_xmms 0x30009 = [0, 1]"
  by code_simp+

section \<open>The aligned frame size\<close>

text \<open>
  C1, as the code has it. On Win64 the function ignores \<open>frameSize\<close> and returns
  0x28 = 40 when \<open>noProlog\<close> is true (the 0x20 bytes of shadow space and the 8 bytes
  that realign the stack after the return address), and 0 when it is false.
\<close>

theorem ABI_GetAlignedFrameSize_Win64:
  "ABI_GetAlignedFrameSize Win64 frameSize noProlog = (if noProlog then 40 else 0)"
  by (simp add: ABI_GetAlignedFrameSize_def)

text \<open>
  C1 as the spec words it fails: with \<open>frameSize = 0\<close> and no prolog the Win64
  result is 40, not 32.
\<close>

theorem ABI_GetAlignedFrameSize_Win64_not_32:
  "ABI_GetAlignedFrameSize Win64 0 True = 40 \<and> ABI_GetAlignedFrameSize Win64 0 True \<noteq> 32"
  by (simp add: ABI_GetAlignedFrameSize_def)

text \<open>
  C2, as the code has it. The branch that subtracts, rounds and adds back is the
  one of the 32-bit non-Windows build; it subtracts 0xc (or 0), and the result
  exceeds \<open>frameSize\<close> by at most 15 and differs from the subtracted amount by a
  multiple of 16, all modulo \<open>2 ^ 32\<close>. Where nothing wraps around, this is the
  remainder rounded up to the next multiple of 16, plus the amount. For
  \<open>frameSize = 0\<close> without prolog the result is 12. The Unix64 build takes the
  64-bit branch: 0x28 without prolog, 0 with it, whatever \<open>frameSize\<close> is.
\<close>

theorem ABI_GetAlignedFrameSize_Unix:
  "ABI_GetAlignedFrameSize Unix64 frameSize noProlog = (if noProlog then 0x28 else 0)
   \<and> (ABI_GetAlignedFrameSize Unix32 frameSize noProlog - (if noProlog then 0xc else 0)) AND 15 = 0
   \<and> ABI_GetAlignedFrameSize Unix32 frameSize noProlog - frameSize \<le> 15
   \<and> ABI_GetAlignedFrameSize Unix32 0 True = 12
   \<and> ((if noProlog then 12 else 0) \<le> unat frameSize
        \<and> unat frameSize - (if noProlog then 12 else 0) + 15 < 2 ^ 32
      \<longrightarrow> unat (ABI_GetAlignedFrameSize Unix32 frameSize noProlog)
          = ((unat frameSize - (if noProlog then 12 else 0) + 15) div 16) * 16
            + (if noProlog then 12 else 0))"
proof (intro conjI impI)
  show "ABI_GetAlignedFrameSize Unix64 frameSize noProlog = (if noProlog then 0x28 else 0)"
    by (simp add: ABI_GetAlignedFrameSize_def)
  show "(ABI_GetAlignedFrameSize Unix32 frameSize noProlog - (if noProlog then 0xc else 0)) AND 15 = 0"
    by (simp add: ABI_GetAlignedFrameSize_def Let_def and.assoc)
  show "ABI_GetAlignedFrameSize Unix32 frameSize noProlog - frameSize \<le> 15"
    by (rule fill_Unix32)
  show "ABI_GetAlignedFrameSize Unix32 0 True = 12"
    by (simp add: ABI_GetAlignedFrameSize_def)
next
  assume "(if noProlog then 12 else 0) \<le> unat frameSize
        \<and> unat frameSize - (if noProlog then 12 else 0) + 15 < 2 ^ 32"
  then have a: "(if noProlog then 12 else 0) \<le> unat frameSize"
    and b: "unat frameSize - (if noProlog then 12 else 0) + 15 < 2 ^ 32"
    by blast+
  show "unat (ABI_GetAlignedFrameSize Unix32 frameSize noProlog)
          = ((unat frameSize - (if noProlog then 12 else 0) + 15) div 16) * 16
            + (if noProlog then 12 else 0)"
    by (rule Unix32_unat[OF refl a b])
qed

theorem ABI_GetAlignedFrameSize_Unix_witness:
  "ABI_GetAlignedFrameSize Unix64 20 True = 0x28
   \<and> ABI_GetAlignedFrameSize Unix32 20 True - 20 \<le> 15
   \<and> (12::nat) \<le> unat (20 :: 32 word) \<and> unat (20 :: 32 word) - 12 + 15 < (2::nat) ^ 32
   \<and> unat (ABI_GetAlignedFrameSize Unix32 20 True) = 28"
  using ABI_GetAlignedFrameSize_Unix[of 20 True] by simp

text \<open>
  C2 as the spec words it fails: on Unix64 the result for \<open>frameSize = 0\<close> without
  prolog is 40, and in the 32-bit build, where the rounding is done, it is 12;
  neither is 16.
\<close>

theorem ABI_GetAlignedFrameSize_Unix64_not_16:
  "ABI_GetAlignedFrameSize Unix64 0 True = 40 \<and> ABI_GetAlignedFrameSize Unix64 0 True \<noteq> 16
   \<and> ABI_GetAlignedFrameSize Unix32 0 True \<noteq> 16"
  by (simp add: ABI_GetAlignedFrameSize_def)

text \<open>
  C8. On each of the four build targets, aligning an aligned frame size again,
  with the same \<open>noProlog\<close>, changes nothing.
\<close>

theorem ABI_GetAlignedFrameSize_idempotent:
  "ABI_GetAlignedFrameSize abi (ABI_GetAlignedFrameSize abi frameSize noProlog) noProlog
   = ABI_GetAlignedFrameSize abi frameSize noProlog"
  by (cases abi) (simp_all add: ABI_GetAlignedFrameSize_def Let_def round_16_again round_4_again)

section \<open>Aligning and restoring the stack\<close>

lemma imm8_read:
  fixes w :: "32 word"
  assumes "w < 0x80"
  shows "imm_value (Imm8 (ucast w)) = Some (uint w)"
proof -
  have "uint w < 128" using assms by (simp add: word_less_alt)
  moreover have "(ucast w :: 8 word) = word_of_int (uint w)" by simp
  ultimately show ?thesis by (simp add: sint_small8 del: of_int_uint)
qed

text \<open>
  C3, as the code has it. \<open>ABI_AlignStack\<close> writes one subtraction from the stack
  pointer whose 8-bit immediate holds
  \<open>ABI_GetAlignedFrameSize(frameSize, noProlog) - frameSize\<close> when that difference is
  not zero, and nothing when it is zero. \<open>ABI_RestoreStack\<close> writes one addition
  whose 8-bit immediate holds the whole aligned size (the padding and the frame,
  so that the pushed arguments are removed too) when the aligned size is not
  zero, and nothing when it is zero. An 8-bit immediate holds the low 8 bits of
  the amount: it is read as the amount whenever the amount is below 0x80. The
  padding is at most 3 in the 32-bit Windows build, at most 15 in the 32-bit
  non-Windows build and at most 0x28 in the 64-bit builds for \<open>frameSize = 0\<close>.
  With \<open>frameSize = 0\<close> the two instructions carry the same amount.
\<close>

theorem ABI_AlignStack_RestoreStack_written:
  "written (ABI_AlignStack abi frameSize noProlog) s =
     (if ABI_GetAlignedFrameSize abi frameSize noProlog - frameSize = 0 then []
      else [SUB (if M_X64 abi then 64 else 32) (R RSP)
              (Imm8 (ucast (ABI_GetAlignedFrameSize abi frameSize noProlog - frameSize)))])
   \<and> written (ABI_RestoreStack abi frameSize noProlog) s =
     (if ABI_GetAlignedFrameSize abi frameSize noProlog = 0 then []
      else [ADD (if M_X64 abi then 64 else 32) (R RSP)
              (Imm8 (ucast (ABI_GetAlignedFrameSize abi frameSize noProlog)))])
   \<and> written (ABI_RestoreStack abi 0 noProlog) s =
     (if ABI_GetAlignedFrameSize abi 0 noProlog - 0 = 0 then []
      else [ADD (if M_X64 abi then 64 else 32) (R RSP)
              (Imm8 (ucast (ABI_GetAlignedFrameSize abi 0 noProlog - 0)))])
   \<and> (ABI_GetAlignedFrameSize abi frameSize noProlog - frameSize < 0x80 \<longrightarrow>
        imm_value (Imm8 (ucast (ABI_GetAlignedFrameSize abi frameSize noProlog - frameSize)))
        = Some (uint (ABI_GetAlignedFrameSize abi frameSize noProlog - frameSize)))
   \<and> (ABI_GetAlignedFrameSize abi frameSize noProlog < 0x80 \<longrightarrow>
        imm_value (Imm8 (ucast (ABI_GetAlignedFrameSize abi frameSize noProlog)))
        = Some (uint (ABI_GetAlignedFrameSize abi frameSize noProlog)))
   \<and> ABI_GetAlignedFrameSize Win32 frameSize noProlog - frameSize \<le> 3
   \<and> ABI_GetAlignedFrameSize Unix32 frameSize noProlog - frameSize \<le> 15
   \<and> ABI_GetAlignedFrameSize Win64 0 noProlog - 0 \<le> 0x28
   \<and> ABI_GetAlignedFrameSize Unix64 0 noProlog - 0 \<le> 0x28"
proof -
  have "ABI_GetAlignedFrameSize Win64 0 noProlog - 0 \<le> 0x28"
    "ABI_GetAlignedFrameSize Unix64 0 noProlog - 0 \<le> 0x28"
    by (simp_all add: ABI_GetAlignedFrameSize_def)
  then show ?thesis
    using imm8_read[of "ABI_GetAlignedFrameSize abi frameSize noProlog - frameSize"]
      imm8_read[of "ABI_GetAlignedFrameSize abi frameSize noProlog"]
    by (simp add: written_def ABI_AlignStack_emit_all ABI_RestoreStack_emit_all align_instrs_def
      restore_instrs_def fill_Win32 fill_Unix32)
qed

theorem ABI_AlignStack_RestoreStack_written_witness:
  "ABI_GetAlignedFrameSize Unix32 8 False - 8 < 0x80
   \<and> ABI_GetAlignedFrameSize Unix32 8 False < 0x80
   \<and> imm_value (Imm8 (ucast (ABI_GetAlignedFrameSize Unix32 8 False - 8))) = Some 8
   \<and> imm_value (Imm8 (ucast (ABI_GetAlignedFrameSize Unix32 8 False))) = Some 16
   \<and> written (ABI_AlignStack Unix32 8 False) (fresh 0) = [SUB 32 (R ESP) (Imm8 8)]
   \<and> written (ABI_RestoreStack Unix32 8 False) (fresh 0) = [ADD 32 (R ESP) (Imm8 16)]"
  using ABI_AlignStack_RestoreStack_written[of Unix32 8 False "fresh 0"]
  by (simp add: ABI_GetAlignedFrameSize_def)

text \<open>
  C3 as the spec words it fails: for a frame of 8 bytes in the 32-bit non-Windows
  build the subtraction is of 8 and the addition of 16; for a frame of 4 bytes in
  the 32-bit Windows build nothing is subtracted and 4 is added. For a frame of
  0x100 bytes the addition carries the immediate 0.
\<close>

theorem ABI_RestoreStack_not_mirror:
  "written (ABI_AlignStack Unix32 8 False) (fresh 0) = [SUB 32 (R ESP) (Imm8 8)]
   \<and> written (ABI_RestoreStack Unix32 8 False) (fresh 0) = [ADD 32 (R ESP) (Imm8 16)]
   \<and> written (ABI_RestoreStack Unix32 8 False) (fresh 0) \<noteq> [ADD 32 (R ESP) (Imm8 8)]
   \<and> written (ABI_AlignStack Win32 4 False) (fresh 0) = []
   \<and> written (ABI_RestoreStack Win32 4 False) (fresh 0) = [ADD 32 (R ESP) (Imm8 4)]
   \<and> written (ABI_RestoreStack Unix32 0x100 False) (fresh 0) = [ADD 32 (R ESP) (Imm8 0)]"
  by (simp add: written_def ABI_AlignStack_emit_all ABI_RestoreStack_emit_all align_instrs_def
      restore_instrs_def ABI_GetAlignedFrameSize_def)

section \<open>The stack adjustment of a register save\<close>

text \<open>
  C9. What \<open>ABI_PushRegistersAndAdjustStack\<close> and \<open>ABI_PopRegistersAndAdjustStack\<close>
  write, for every build, mask and \<open>noProlog\<close>: the one adjustment (none when the
  total is zero) is a \<open>SUB\<close>, respectively an \<open>ADD\<close>, whose operand is a 32-bit
  immediate when the total is at least 0x80 and an 8-bit immediate otherwise, the
  same operand in both; the value read from that operand is the total, and the
  total is at least 16 bytes for each selected vector register (so at least 128
  for eight of them).
\<close>

theorem adjust_stack_immediate:
  "written (ABI_PushRegistersAndAdjustStack abi msk noProlog) s =
     map PUSH_nr (selected_gprs msk)
     @ (if adjust_size abi msk noProlog = 0 then []
        else [SUB (if M_X64 abi then 64 else 32) (R RSP)
                (if adjust_size abi msk noProlog \<ge> 0x80
                 then Imm32 (word_of_int (adjust_size abi msk noProlog))
                 else Imm8 (word_of_int (adjust_size abi msk noProlog)))])
     @ map store_instr (xmm_slots (shadow_space abi) (selected_xmms msk))
   \<and> written (ABI_PopRegistersAndAdjustStack abi msk noProlog) s =
     map load_instr (xmm_slots (shadow_space abi) (selected_xmms msk))
     @ (if adjust_size abi msk noProlog = 0 then []
        else [ADD (if M_X64 abi then 64 else 32) (R RSP)
                (if adjust_size abi msk noProlog \<ge> 0x80
                 then Imm32 (word_of_int (adjust_size abi msk noProlog))
                 else Imm8 (word_of_int (adjust_size abi msk noProlog)))])
     @ map POP_nr (rev (selected_gprs msk))
   \<and> imm_value (if adjust_size abi msk noProlog \<ge> 0x80
                 then Imm32 (word_of_int (adjust_size abi msk noProlog))
                 else Imm8 (word_of_int (adjust_size abi msk noProlog)))
       = Some (adjust_size abi msk noProlog)
   \<and> 16 * int (length (selected_xmms msk)) \<le> adjust_size abi msk noProlog"
proof (intro conjI)
  show "16 * int (length (selected_xmms msk)) \<le> adjust_size abi msk noProlog"
    using adjust_size_lower[of msk abi noProlog] shadow_space_range[of abi] by linarith
  show "imm_value (if adjust_size abi msk noProlog \<ge> 0x80
                 then Imm32 (word_of_int (adjust_size abi msk noProlog))
                 else Imm8 (word_of_int (adjust_size abi msk noProlog)))
       = Some (adjust_size abi msk noProlog)"
    using imm_value_size_imm[of abi msk noProlog] by (simp add: size_imm_def)
qed (simp_all add: written_def ABI_PushRegistersAndAdjustStack_emit_all
    ABI_PopRegistersAndAdjustStack_emit_all push_instrs_def pop_instrs_def size_imm_def)

section \<open>Near and far calls\<close>

text \<open>
  C6. In a 64-bit build each of the thirteen call emitters writes the alignment,
  its argument moves, the call that \<open>call_instrs\<close> chooses at the address reached
  after them, and the restoring of the stack; \<open>call_instrs\<close> is a near call exactly
  when \<open>target - (address + 5)\<close> fits a signed 32-bit displacement. A target
  0x7FFFFFFF bytes above the address after the near call (or 0x80000000 below it)
  gets a near call; one byte further gets RAX loaded with the 64-bit address and
  a call through RAX.
\<close>

theorem far_call_rule:
  assumes "M_X64 abi"
  shows "written (ABI_CallFunction abi d func) s = call_site_64 abi d [] func s
    \<and> written (ABI_CallFunctionC16 abi d func c16) s
         = call_site_64 abi d [MOV 32 (R (ABI_PARAM1 abi)) (Imm32 (ucast c16))] func s
    \<and> written (ABI_CallFunctionCC16 abi d func c1 c16) s
         = call_site_64 abi d [MOV 32 (R (ABI_PARAM1 abi)) (Imm32 c1),
                               MOV 32 (R (ABI_PARAM2 abi)) (Imm32 (ucast c16))] func s
    \<and> written (ABI_CallFunctionC abi d func c1) s
         = call_site_64 abi d [MOV 32 (R (ABI_PARAM1 abi)) (Imm32 c1)] func s
    \<and> written (ABI_CallFunctionCC abi d func c1 c2) s
         = call_site_64 abi d [MOV 32 (R (ABI_PARAM1 abi)) (Imm32 c1),
                               MOV 32 (R (ABI_PARAM2 abi)) (Imm32 c2)] func s
    \<and> written (ABI_CallFunctionCCC abi d func c1 c2 c3) s
         = call_site_64 abi d [MOV 32 (R (ABI_PARAM1 abi)) (Imm32 c1),
                               MOV 32 (R (ABI_PARAM2 abi)) (Imm32 c2),
                               MOV 32 (R (ABI_PARAM3 abi)) (Imm32 c3)] func s
    \<and> written (ABI_CallFunctionCCP abi d func c1 c2 p3) s
         = call_site_64 abi d [MOV 32 (R (ABI_PARAM1 abi)) (Imm32 c1),
                               MOV 32 (R (ABI_PARAM2 abi)) (Imm32 c2),
                               MOV 64 (R (ABI_PARAM3 abi)) (Imm64 p3)] func s
    \<and> written (ABI_CallFunctionCCCP abi d func c1 c2 c3 p4) s
         = call_site_64 abi d [MOV 32 (R (ABI_PARAM1 abi)) (Imm32 c1),
                               MOV 32 (R (ABI_PARAM2 abi)) (Imm32 c2),
                               MOV 32 (R (ABI_PARAM3 abi)) (Imm32 c3),
                               MOV 64 (R (ABI_PARAM4 abi)) (Imm64 p4)] func s
    \<and> written (ABI_CallFunctionPPC abi d func p1 p2 c3) s
         = call_site_64 abi d [MOV 64 (R (ABI_PARAM1 abi)) (Imm64 p1),
                               MOV 64 (R (ABI_PARAM2 abi)) (Imm64 p2),
                               MOV 32 (R (ABI_PARAM3 abi)) (Imm32 c3)] func s
    \<and> written (ABI_CallFunctionR abi d func reg1) s
         = call_site_64 abi d (R_moves abi reg1) func s
    \<and> written (ABI_CallFunctionRR abi func reg1 reg2 noProlog) s
         = call_site_64 abi noProlog (RR_moves abi reg1 reg2) func s
    \<and> written (ABI_CallFunctionAC abi d func arg1 c2) s
         = call_site_64 abi d (A_moves abi arg1 @ [MOV 32 (R (ABI_PARAM2 abi)) (Imm32 c2)]) func s
    \<and> written (ABI_CallFunctionA abi d func arg1) s
         = call_site_64 abi d (A_moves abi arg1) func s
    \<and> call_instrs (at + 5 + 0x7FFFFFFF) at = [CALL (at + 5 + 0x7FFFFFFF)]
    \<and> call_instrs (at + 5 + 0x80000000) at
         = [MOV 64 (R RAX) (Imm64 (at + 5 + 0x80000000)), CALLptr (R RAX)]
    \<and> call_instrs (at + 5 - 0x80000000) at = [CALL (at + 5 - 0x80000000)]
    \<and> call_instrs (at + 5 - 0x80000001) at
         = [MOV 64 (R RAX) (Imm64 (at + 5 - 0x80000001)), CALLptr (R RAX)]"
  using call_emitters_64[OF assms] fits_rel32_boundary
  by (simp add: call_instrs_def)

theorem far_call_rule_witness:
  "M_X64 Unix64
   \<and> written (ABI_CallFunctionCC Unix64 False 0x8000100E 10 20) (fresh 0x1000)
       = [MOV 32 (R RDI) (Imm32 10), MOV 32 (R RSI) (Imm32 20), CALL 0x8000100E]
   \<and> written (ABI_CallFunctionCC Unix64 False 0x8000100F 10 20) (fresh 0x1000)
       = [MOV 32 (R RDI) (Imm32 10), MOV 32 (R RSI) (Imm32 20),
          MOV 64 (R RAX) (Imm64 0x8000100F), CALLptr (R RAX)]"
  using far_call_rule[where abi = Unix64 and d = False and func = "0x8000100E"
        and s = "fresh 0x1000" and ?c1.0 = 10 and ?c2.0 = 20]
      far_call_rule[where abi = Unix64 and d = False and func = "0x8000100F"
        and s = "fresh 0x1000" and ?c1.0 = 10 and ?c2.0 = 20]
  by (simp add: call_site_64_def call_instrs_def fits_rel32_def align_instrs_def
      restore_instrs_def ABI_GetAlignedFrameSize_def size_of_def fresh_def five_bytes_def)

section \<open>Argument order\<close>

text \<open>
  C7. \<open>ABI_CallFunctionCC(func, param1, param2)\<close> in a 32-bit build writes the push
  of \<open>param2\<close> before the push of \<open>param1\<close>, and when control reaches the callee
  \<open>param1\<close> is in the stack slot at the stack pointer and \<open>param2\<close> in the next one
  above it. In a 64-bit build it writes the move of \<open>param1\<close> into the first
  argument register and of \<open>param2\<close> into the second, and they hold these values
  when control reaches the callee.
\<close>

theorem ABI_CallFunctionCC_argument_order:
  fixes m32 :: "32 word machine" and m64 :: "64 word machine"
  shows
  "(M_IX86 abi \<longrightarrow>
      written (ABI_CallFunctionCC abi d func param1 param2) s
        = align_instrs abi 8 d
          @ [PUSH_bits 32 (Imm32 param2), PUSH_bits 32 (Imm32 param1), CALL func]
          @ restore_instrs abi 8 d
      \<and> (\<exists>m'. at_call (written (ABI_CallFunctionCC abi d func param1 param2) s) m32 = Some m'
              \<and> stack_slot m' 0 = param1 \<and> stack_slot m' 1 = param2))
   \<and> (M_X64 abi \<longrightarrow>
      written (ABI_CallFunctionCC abi d func param1 param2) s
        = call_site_64 abi d [MOV 32 (R (ABI_PARAM1 abi)) (Imm32 param1),
                              MOV 32 (R (ABI_PARAM2 abi)) (Imm32 param2)] func s
      \<and> (\<exists>m'. at_call (written (ABI_CallFunctionCC abi d func param1 param2) s) m64 = Some m'
              \<and> gpr m' (ABI_PARAM1 abi) = ucast param1
              \<and> gpr m' (ABI_PARAM2 abi) = ucast param2))"
proof (intro conjI impI)
  assume a: "M_IX86 abi"
  show "written (ABI_CallFunctionCC abi d func param1 param2) s
        = align_instrs abi 8 d
          @ [PUSH_bits 32 (Imm32 param2), PUSH_bits 32 (Imm32 param1), CALL func]
          @ restore_instrs abi 8 d"
    by (rule CallFunctionCC_32[OF a])
  show "\<exists>m'. at_call (written (ABI_CallFunctionCC abi d func param1 param2) s) m32 = Some m'
              \<and> stack_slot m' 0 = param1 \<and> stack_slot m' 1 = param2"
    using CC_at_call_32[OF a] by (simp only: CallFunctionCC_32[OF a])
next
  assume a: "M_X64 abi"
  show "written (ABI_CallFunctionCC abi d func param1 param2) s
        = call_site_64 abi d [MOV 32 (R (ABI_PARAM1 abi)) (Imm32 param1),
                              MOV 32 (R (ABI_PARAM2 abi)) (Imm32 param2)] func s"
    by (rule call_emitters_64(5)[OF a])
  show "\<exists>m'. at_call (written (ABI_CallFunctionCC abi d func param1 param2) s) m64 = Some m'
              \<and> gpr m' (ABI_PARAM1 abi) = ucast param1
              \<and> gpr m' (ABI_PARAM2 abi) = ucast param2"
    using CC_at_call_64[OF a] by (simp only: call_emitters_64(5)[OF a])
qed

theorem ABI_CallFunctionCC_argument_order_witness:
  "M_IX86 Unix32 \<and> M_X64 Win64
   \<and> written (ABI_CallFunctionCC Unix32 False 0x1000 10 20) (fresh 0)
       = [SUB 32 (R ESP) (Imm8 8), PUSH_bits 32 (Imm32 20), PUSH_bits 32 (Imm32 10),
          CALL 0x1000, ADD 32 (R ESP) (Imm8 16)]
   \<and> written (ABI_CallFunctionCC Win64 False 0x1000 10 20) (fresh 0)
       = [MOV 32 (R RCX) (Imm32 10), MOV 32 (R RDX) (Imm32 20), CALL 0x1000]"
  using ABI_CallFunctionCC_argument_order[of Unix32 False "0x1000" 10 20 "fresh 0"]
    ABI_CallFunctionCC_argument_order[of Win64 False "0x1000" 10 20 "fresh 0"]
  by (simp add: call_site_64_def call_instrs_def fits_rel32_def align_instrs_def
      restore_instrs_def ABI_GetAlignedFrameSize_def size_of_def fresh_def five_bytes_def)

section \<open>Two register arguments\<close>

text \<open>
  C5 fails on the code when the two source registers are the two argument
  registers exchanged. On Unix64, for \<open>reg1 = RSI\<close> and \<open>reg2 = RDI\<close>, the function
  writes \<open>MOV RSI, RDI\<close> and then \<open>MOV RDI, RSI\<close>; run on RDI = 1 and RSI = 2, both
  argument registers hold 1 at the call, and the value 2 of \<open>reg1\<close> is lost. (For
  every other pair of registers the moves deliver both values, see
  \<open>RR_moves_run\<close>.)
\<close>

theorem ABI_CallFunctionRR_swapped_registers:
  "written (ABI_CallFunctionRR Unix64 0x1000 RSI RDI False) (fresh 0)
     = [MOV 64 (R RSI) (R RDI), MOV 64 (R RDI) (R RSI), CALL 0x1000]
   \<and> gpr (machine_with [(RDI, 1), (RSI, 2)] :: 64 word machine) RSI = 2
   \<and> reg_at_call RDI (written (ABI_CallFunctionRR Unix64 0x1000 RSI RDI False) (fresh 0))
        (machine_with [(RDI, 1), (RSI, 2)] :: 64 word machine) = Some 1
   \<and> reg_at_call RSI (written (ABI_CallFunctionRR Unix64 0x1000 RSI RDI False) (fresh 0))
        (machine_with [(RDI, 1), (RSI, 2)] :: 64 word machine) = Some 1"
  by (simp add: ABI_CallFunctionRR_def eval_simps)

section \<open>RAX and the far call\<close>

text \<open>
  C10, as the code has it. In a 64-bit build every call emitter writes its
  argument moves first and then the call; when the target is out of reach of a
  near call, the call is the load of the target's address into RAX followed by a
  call through RAX, so that RAX holds the target when control reaches the callee
  and all else is as the argument moves left it. An argument passed in RAX has
  been copied to its argument register by then.
\<close>

theorem far_call_loads_RAX:
  fixes m :: "64 word machine"
  assumes "M_X64 abi"
    and "\<not> fits_rel32 (func - (code s + size_of s (align_instrs abi 0 np @ moves) + 5))"
    and "\<forall>i\<in>set moves. \<not> is_call i"
  shows "call_site_64 abi np moves func s
           = (align_instrs abi 0 np @ moves)
             @ [MOV 64 (R RAX) (Imm64 func), CALLptr (R RAX)]
             @ restore_instrs abi 0 np
    \<and> at_call (call_site_64 abi np moves func s) m
         = (case run (align_instrs abi 0 np @ moves) m of None \<Rightarrow> None
            | Some m1 \<Rightarrow> Some (m1\<lparr>gpr := (gpr m1)(RAX := func)\<rparr>))
    \<and> (\<exists>m'. at_call (written (ABI_CallFunctionR abi d func RAX) s) m = Some m'
           \<and> gpr m' (ABI_PARAM1 abi) = take_bit 32 (gpr m RAX))
    \<and> written (ABI_CallFunction abi d func) s = call_site_64 abi d [] func s
    \<and> written (ABI_CallFunctionC16 abi d func c16) s
         = call_site_64 abi d [MOV 32 (R (ABI_PARAM1 abi)) (Imm32 (ucast c16))] func s
    \<and> written (ABI_CallFunctionCC16 abi d func c1 c16) s
         = call_site_64 abi d [MOV 32 (R (ABI_PARAM1 abi)) (Imm32 c1),
                               MOV 32 (R (ABI_PARAM2 abi)) (Imm32 (ucast c16))] func s
    \<and> written (ABI_CallFunctionC abi d func c1) s
         = call_site_64 abi d [MOV 32 (R (ABI_PARAM1 abi)) (Imm32 c1)] func s
    \<and> written (ABI_CallFunctionCC abi d func c1 c2) s
         = call_site_64 abi d [MOV 32 (R (ABI_PARAM1 abi)) (Imm32 c1),
                               MOV 32 (R (ABI_PARAM2 abi)) (Imm32 c2)] func s
    \<and> written (ABI_CallFunctionCCC abi d func c1 c2 c3) s
         = call_site_64 abi d [MOV 32 (R (ABI_PARAM1 abi)) (Imm32 c1),
                               MOV 32 (R (ABI_PARAM2 abi)) (Imm32 c2),
                               MOV 32 (R (ABI_PARAM3 abi)) (Imm32 c3)] func s
    \<and> written (ABI_CallFunctionCCP abi d func c1 c2 p3) s
         = call_site_64 abi d [MOV 32 (R (ABI_PARAM1 abi)) (Imm32 c1),
                               MOV 32 (R (ABI_PARAM2 abi)) (Imm32 c2),
                               MOV 64 (R (ABI_PARAM3 abi)) (Imm64 p3)] func s
    \<and> written (ABI_CallFunctionCCCP abi d func c1 c2 c3 p4) s
         = call_site_64 abi d [MOV 32 (R (ABI_PARAM1 abi)) (Imm32 c1),
                               MOV 32 (R (ABI_PARAM2 abi)) (Imm32 c2),
                               MOV 32 (R (ABI_PARAM3 abi)) (Imm32 c3),
                               MOV 64 (R (ABI_PARAM4 abi)) (Imm64 p4)] func s
    \<and> written (ABI_CallFunctionPPC abi d func p1 p2 c3) s
         = call_site_64 abi d [MOV 64 (R (ABI_PARAM1 abi)) (Imm64 p1),
                               MOV 64 (R (ABI_PARAM2 abi)) (Imm64 p2),
                               MOV 32 (R (ABI_PARAM3 abi)) (Imm32 c3)] func s
    \<and> written (ABI_CallFunctionR abi d func reg1) s
         = call_site_64 abi d (R_moves abi reg1) func s
    \<and> written (ABI_CallFunctionRR abi func reg1 reg2 noProlog) s
         = call_site_64 abi noProlog (RR_moves abi reg1 reg2) func s
    \<and> written (ABI_CallFunctionAC abi d func arg1 c2) s
         = call_site_64 abi d (A_moves abi arg1 @ [MOV 32 (R (ABI_PARAM2 abi)) (Imm32 c2)]) func s
    \<and> written (ABI_CallFunctionA abi d func arg1) s
         = call_site_64 abi d (A_moves abi arg1) func s"
proof -
  have a: "\<exists>m'. at_call (written (ABI_CallFunctionR abi d func RAX) s) m = Some m'
           \<and> gpr m' (ABI_PARAM1 abi) = take_bit 32 (gpr m RAX)"
    using R_RAX_at_call[OF assms(1), of d func s m]
    by (simp only: call_emitters_64(10)[OF assms(1)]) blast
  show ?thesis
    using call_site_64_far[OF assms(2)] at_call_far[OF assms(2,3), of m] a
      call_emitters_64[OF assms(1)]
    by simp
qed

theorem far_call_loads_RAX_witness:
  "M_X64 Unix64
   \<and> \<not> fits_rel32 (0x100000000 - (code (fresh 0)
          + size_of (fresh 0) (align_instrs Unix64 0 False @ R_moves Unix64 RAX) + 5))
   \<and> call_site_64 Unix64 False (R_moves Unix64 RAX) 0x100000000 (fresh 0)
       = [MOV 32 (R RDI) (R RAX), MOV 64 (R RAX) (Imm64 0x100000000), CALLptr (R RAX)]"
proof -
  have h1: "M_X64 Unix64" by simp
  have h2: "\<not> fits_rel32 (0x100000000 - (code (fresh 0)
          + size_of (fresh 0) (align_instrs Unix64 0 False @ R_moves Unix64 RAX) + 5))"
    by (simp add: fits_rel32_def align_instrs_def ABI_GetAlignedFrameSize_def R_moves_def
        size_of_def fresh_def five_bytes_def)
  have h3: "\<forall>i\<in>set (R_moves Unix64 RAX). \<not> is_call i" by (simp add: R_moves_def)
  from far_call_loads_RAX[OF h1 h2 h3]
  have "call_site_64 Unix64 False (R_moves Unix64 RAX) 0x100000000 (fresh 0)
           = (align_instrs Unix64 0 False @ R_moves Unix64 RAX)
             @ [MOV 64 (R RAX) (Imm64 0x100000000), CALLptr (R RAX)]
             @ restore_instrs Unix64 0 False"
    by blast
  then show ?thesis using h1 h2
    by (simp add: align_instrs_def restore_instrs_def ABI_GetAlignedFrameSize_def R_moves_def)
qed

text \<open>
  C10 as worded forbids arguments in RAX on the far path. The code allows them:
  \<open>ABI_CallFunctionR\<close> with \<open>reg1 = RAX\<close> and a target 4 GiB away moves RAX to RDI
  before it loads RAX, and the callee receives the argument.
\<close>

theorem argument_in_RAX_reaches_far_call:
  "written (ABI_CallFunctionR Unix64 False 0x100000000 RAX) (fresh 0)
     = [MOV 32 (R RDI) (R RAX), MOV 64 (R RAX) (Imm64 0x100000000), CALLptr (R RAX)]
   \<and> reg_at_call RDI (written (ABI_CallFunctionR Unix64 False 0x100000000 RAX) (fresh 0))
        (machine_with [(RAX, 7)] :: 64 word machine) = Some 7
   \<and> reg_at_call RAX (written (ABI_CallFunctionR Unix64 False 0x100000000 RAX) (fresh 0))
        (machine_with [(RAX, 7)] :: 64 word machine) = Some 0x100000000"
  by (simp add: ABI_CallFunctionR_def eval_simps)

section \<open>Saving and restoring registers\<close>

text \<open>
  C4. For every build, mask and \<open>noProlog\<close>, the save writes the pushes of the
  selected general-purpose registers in ascending order, one \<open>SUB\<close> of the
  adjustment and the stores of the selected vector registers, and the restore
  writes the loads of the same registers from the same offsets (16 bytes apart,
  ascending, from the shadow space on), one \<open>ADD\<close> of the same adjustment and the
  pops in descending order. Run in the mode of the build (64-bit mode for the
  64-bit builds, 32-bit mode for the 32-bit builds), with a mask that selects
  only registers of that mode (any of the sixteen of each kind in 64-bit mode,
  the first eight of each kind in 32-bit mode), from a stack pointer aligned as
  \<open>noProlog\<close> says (without prolog 8 modulo 16 in 64-bit mode and 12 modulo 16 in
  32-bit mode, with prolog 0; needed for the vector stores only), the save moves
  the stack pointer down by the pushes and the adjustment, and the restore, run
  from any state with that stack pointer and the same bytes in the saved area,
  whatever the registers hold by then, brings the stack pointer and every
  selected register back to the values before the save.
\<close>

theorem save_restore_round_trip:
  fixes m0 :: "'a::len word machine"
  shows "written (ABI_PushRegistersAndAdjustStack abi msk noProlog) s
           = map PUSH_nr (selected_gprs msk)
             @ (if adjust_size abi msk noProlog = 0 then []
                else [SUB (if M_X64 abi then 64 else 32) (R RSP)
                        (size_imm (adjust_size abi msk noProlog))])
             @ map store_instr (xmm_slots (shadow_space abi) (selected_xmms msk))
     \<and> written (ABI_PopRegistersAndAdjustStack abi msk noProlog) s'
           = map load_instr (xmm_slots (shadow_space abi) (selected_xmms msk))
             @ (if adjust_size abi msk noProlog = 0 then []
                else [ADD (if M_X64 abi then 64 else 32) (R RSP)
                        (size_imm (adjust_size abi msk noProlog))])
             @ map POP_nr (rev (selected_gprs msk))
     \<and> sorted_wrt (<) (selected_gprs msk) \<and> sorted_wrt (<) (selected_xmms msk)
     \<and> map fst (xmm_slots (shadow_space abi) (selected_xmms msk)) = selected_xmms msk
     \<and> map snd (xmm_slots (shadow_space abi) (selected_xmms msk))
         = map (\<lambda>i. shadow_space abi + 16 * int i) [0..<length (selected_xmms msk)]
     \<and> (LENGTH('a) = (if M_X64 abi then 64 else 32)
          \<and> (\<forall>r\<in>set (selected_gprs msk @ selected_xmms msk). has_reg LENGTH('a) (X64Reg r))
          \<and> (selected_xmms msk \<noteq> [] \<longrightarrow>
               gpr m0 RSP AND 15 = (if noProlog then (if M_X64 abi then 8 else 12) else 0))
        \<longrightarrow> (\<exists>m1. run (written (ABI_PushRegistersAndAdjustStack abi msk noProlog) s) m0 = Some m1
              \<and> gpr m1 RSP = gpr m0 RSP - word_of_int (saved_bytes abi msk noProlog)
              \<and> (\<forall>m2. gpr m2 RSP = gpr m1 RSP
                      \<and> (\<forall>a. unat (a - gpr m1 RSP) < nat (saved_bytes abi msk noProlog)
                             \<longrightarrow> mem m2 a = mem m1 a)
                   \<longrightarrow> (\<exists>m3. run (written (ABI_PopRegistersAndAdjustStack abi msk noProlog) s') m2
                               = Some m3
                          \<and> gpr m3 RSP = gpr m0 RSP
                          \<and> (\<forall>r\<in>set (selected_gprs msk). gpr m3 (X64Reg r) = gpr m0 (X64Reg r))
                          \<and> (\<forall>x\<in>set (selected_xmms msk).
                                 xmm m3 (X64Reg x) = xmm m0 (X64Reg x))))))"
proof -
  have w1: "written (ABI_PushRegistersAndAdjustStack abi msk noProlog) s
            = push_instrs abi msk noProlog"
    by (simp add: written_def ABI_PushRegistersAndAdjustStack_emit_all)
  have w2: "written (ABI_PopRegistersAndAdjustStack abi msk noProlog) s'
            = pop_instrs abi msk noProlog"
    by (simp add: written_def ABI_PopRegistersAndAdjustStack_emit_all)
  have lists: "push_instrs abi msk noProlog
           = map PUSH_nr (selected_gprs msk)
             @ (if adjust_size abi msk noProlog = 0 then []
                else [SUB (if M_X64 abi then 64 else 32) (R RSP)
                        (size_imm (adjust_size abi msk noProlog))])
             @ map store_instr (xmm_slots (shadow_space abi) (selected_xmms msk))"
    "pop_instrs abi msk noProlog
           = map load_instr (xmm_slots (shadow_space abi) (selected_xmms msk))
             @ (if adjust_size abi msk noProlog = 0 then []
                else [ADD (if M_X64 abi then 64 else 32) (R RSP)
                        (size_imm (adjust_size abi msk noProlog))])
             @ map POP_nr (rev (selected_gprs msk))"
    by (simp_all only: push_instrs_def pop_instrs_def)
  have runs: "LENGTH('a) = (if M_X64 abi then 64 else 32)
          \<and> (\<forall>r\<in>set (selected_gprs msk @ selected_xmms msk). has_reg LENGTH('a) (X64Reg r))
          \<and> (selected_xmms msk \<noteq> [] \<longrightarrow>
               gpr m0 RSP AND 15 = (if noProlog then (if M_X64 abi then 8 else 12) else 0))
        \<longrightarrow> (\<exists>m1. run (push_instrs abi msk noProlog) m0 = Some m1
              \<and> gpr m1 RSP = gpr m0 RSP - word_of_int (saved_bytes abi msk noProlog)
              \<and> (\<forall>m2. gpr m2 RSP = gpr m1 RSP
                      \<and> (\<forall>a. unat (a - gpr m1 RSP) < nat (saved_bytes abi msk noProlog)
                             \<longrightarrow> mem m2 a = mem m1 a)
                   \<longrightarrow> (\<exists>m3. run (pop_instrs abi msk noProlog) m2 = Some m3
                          \<and> gpr m3 RSP = gpr m0 RSP
                          \<and> (\<forall>r\<in>set (selected_gprs msk). gpr m3 (X64Reg r) = gpr m0 (X64Reg r))
                          \<and> (\<forall>x\<in>set (selected_xmms msk).
                                 xmm m3 (X64Reg x) = xmm m0 (X64Reg x)))))"
  proof (intro impI, elim conjE)
    assume "LENGTH('a) = (if M_X64 abi then 64 else 32)"
      and "\<forall>r\<in>set (selected_gprs msk @ selected_xmms msk). has_reg LENGTH('a) (X64Reg r)"
      and "selected_xmms msk \<noteq> [] \<longrightarrow>
               gpr m0 RSP AND 15 = (if noProlog then (if M_X64 abi then 8 else 12) else 0)"
    then show "\<exists>m1. run (push_instrs abi msk noProlog) m0 = Some m1
              \<and> gpr m1 RSP = gpr m0 RSP - word_of_int (saved_bytes abi msk noProlog)
              \<and> (\<forall>m2. gpr m2 RSP = gpr m1 RSP
                      \<and> (\<forall>a. unat (a - gpr m1 RSP) < nat (saved_bytes abi msk noProlog)
                             \<longrightarrow> mem m2 a = mem m1 a)
                   \<longrightarrow> (\<exists>m3. run (pop_instrs abi msk noProlog) m2 = Some m3
                          \<and> gpr m3 RSP = gpr m0 RSP
                          \<and> (\<forall>r\<in>set (selected_gprs msk). gpr m3 (X64Reg r) = gpr m0 (X64Reg r))
                          \<and> (\<forall>x\<in>set (selected_xmms msk).
                                 xmm m3 (X64Reg x) = xmm m0 (X64Reg x))))"
      by (rule round_trip)
  qed
  show ?thesis
    unfolding w1 w2
    by (intro conjI lists selected_ascending xmm_slots_fst xmm_slots_snd runs)
qed

theorem save_restore_round_trip_witness:
  "(\<exists>m1 m3.
      run (written (ABI_PushRegistersAndAdjustStack Win64 0x30009 True) (fresh 0))
        ((machine_with [(RAX, 0x1111), (RBX, 0x3333), (RSP, 0x7FF8)] :: 64 word machine)
           \<lparr>xmm := (\<lambda>x. if x = X64Reg 0 then 0xAAAA else 0xBBBB)\<rparr>) = Some m1
      \<and> gpr m1 RSP = 0x7FA0
      \<and> run (written (ABI_PopRegistersAndAdjustStack Win64 0x30009 True) (fresh 0))
          (m1\<lparr>gpr := (gpr m1)(RAX := 0x99, RBX := 0), xmm := (\<lambda>x. 0x77)\<rparr>) = Some m3
      \<and> gpr m3 RSP = 0x7FF8 \<and> gpr m3 RAX = 0x1111 \<and> gpr m3 RBX = 0x3333
      \<and> xmm m3 (X64Reg 0) = 0xAAAA \<and> xmm m3 (X64Reg 1) = 0xBBBB)
   \<and> (\<exists>m1 m3.
      run (written (ABI_PushRegistersAndAdjustStack Unix32 0x30009 True) (fresh 0))
        ((machine_with [(RAX, 0x1111), (RBX, 0x3333), (RSP, 0x7FFC)] :: 32 word machine)
           \<lparr>xmm := (\<lambda>x. if x = X64Reg 0 then 0xAAAA else 0xBBBB)\<rparr>) = Some m1
      \<and> gpr m1 RSP = 0x7FD0
      \<and> run (written (ABI_PopRegistersAndAdjustStack Unix32 0x30009 True) (fresh 0))
          (m1\<lparr>gpr := (gpr m1)(RAX := 0x99, RBX := 0), xmm := (\<lambda>x. 0x77)\<rparr>) = Some m3
      \<and> gpr m3 RSP = 0x7FFC \<and> gpr m3 RAX = 0x1111 \<and> gpr m3 RBX = 0x3333
      \<and> xmm m3 (X64Reg 0) = 0xAAAA \<and> xmm m3 (X64Reg 1) = 0xBBBB)"
proof -
  let ?m64 = "(machine_with [(RAX, 0x1111), (RBX, 0x3333), (RSP, 0x7FF8)] :: 64 word machine)
           \<lparr>xmm := (\<lambda>x. if x = X64Reg 0 then 0xAAAA else 0xBBBB)\<rparr>"
  let ?m32 = "(machine_with [(RAX, 0x1111), (RBX, 0x3333), (RSP, 0x7FFC)] :: 32 word machine)
           \<lparr>xmm := (\<lambda>x. if x = X64Reg 0 then 0xAAAA else 0xBBBB)\<rparr>"
  have sb64: "saved_bytes Win64 0x30009 True = 0x58"
    by (simp add: saved_bytes_def adjust_size_def selected_0x30009 shadow_space_def)
  have sb32: "saved_bytes Unix32 0x30009 True = 0x2C"
    by (simp add: saved_bytes_def adjust_size_def selected_0x30009 shadow_space_def)
  have a64: "LENGTH(64) = (if M_X64 Win64 then 64 else 32)
      \<and> (\<forall>r\<in>set (selected_gprs 0x30009 @ selected_xmms 0x30009). has_reg LENGTH(64) (X64Reg r))
      \<and> (selected_xmms 0x30009 \<noteq> [] \<longrightarrow>
            gpr ?m64 RSP AND 15 = (if True then (if M_X64 Win64 then 8 else 12) else 0))"
    by (simp add: selected_0x30009 machine_with_def)
  have a32: "LENGTH(32) = (if M_X64 Unix32 then 64 else 32)
      \<and> (\<forall>r\<in>set (selected_gprs 0x30009 @ selected_xmms 0x30009). has_reg LENGTH(32) (X64Reg r))
      \<and> (selected_xmms 0x30009 \<noteq> [] \<longrightarrow>
            gpr ?m32 RSP AND 15 = (if True then (if M_X64 Unix32 then 8 else 12) else 0))"
    by (simp add: selected_0x30009 machine_with_def)
  from save_restore_round_trip[of Win64 "0x30009" True "fresh 0" "fresh 0" ?m64] a64
  obtain m1 where r1: "run (written (ABI_PushRegistersAndAdjustStack Win64 0x30009 True) (fresh 0)) ?m64
        = Some m1"
    and s1: "gpr m1 RSP = gpr ?m64 RSP - word_of_int (saved_bytes Win64 0x30009 True)"
    and p: "\<forall>m2. gpr m2 RSP = gpr m1 RSP
                      \<and> (\<forall>a. unat (a - gpr m1 RSP) < nat (saved_bytes Win64 0x30009 True)
                             \<longrightarrow> mem m2 a = mem m1 a)
                   \<longrightarrow> (\<exists>m3. run (written (ABI_PopRegistersAndAdjustStack Win64 0x30009 True) (fresh 0)) m2
                               = Some m3
                          \<and> gpr m3 RSP = gpr ?m64 RSP
                          \<and> (\<forall>r\<in>set (selected_gprs 0x30009). gpr m3 (X64Reg r) = gpr ?m64 (X64Reg r))
                          \<and> (\<forall>x\<in>set (selected_xmms 0x30009).
                                 xmm m3 (X64Reg x) = xmm ?m64 (X64Reg x)))"
    by blast
  define m2 where "m2 = m1\<lparr>gpr := (gpr m1)(RAX := 0x99, RBX := 0), xmm := (\<lambda>x. 0x77)\<rparr>"
  have "gpr m2 RSP = gpr m1 RSP" "mem m2 = mem m1" by (simp_all add: m2_def)
  with p obtain m3 where
    r3: "run (written (ABI_PopRegistersAndAdjustStack Win64 0x30009 True) (fresh 0)) m2 = Some m3"
    and g3: "gpr m3 RSP = gpr ?m64 RSP"
    and q3: "\<forall>r\<in>set (selected_gprs 0x30009). gpr m3 (X64Reg r) = gpr ?m64 (X64Reg r)"
    and x3: "\<forall>x\<in>set (selected_xmms 0x30009). xmm m3 (X64Reg x) = xmm ?m64 (X64Reg x)"
    by (metis (no_types, lifting))
  have first: "\<exists>m1 m3.
      run (written (ABI_PushRegistersAndAdjustStack Win64 0x30009 True) (fresh 0)) ?m64 = Some m1
      \<and> gpr m1 RSP = 0x7FA0
      \<and> run (written (ABI_PopRegistersAndAdjustStack Win64 0x30009 True) (fresh 0))
          (m1\<lparr>gpr := (gpr m1)(RAX := 0x99, RBX := 0), xmm := (\<lambda>x. 0x77)\<rparr>) = Some m3
      \<and> gpr m3 RSP = 0x7FF8 \<and> gpr m3 RAX = 0x1111 \<and> gpr m3 RBX = 0x3333
      \<and> xmm m3 (X64Reg 0) = 0xAAAA \<and> xmm m3 (X64Reg 1) = 0xBBBB"
    using r1 s1 r3 g3 q3 x3
    by (intro exI[of _ m1] exI[of _ m3]) (simp add: m2_def sb64 selected_0x30009 machine_with_def)
  from save_restore_round_trip[of Unix32 "0x30009" True "fresh 0" "fresh 0" ?m32] a32
  obtain n1 where r1: "run (written (ABI_PushRegistersAndAdjustStack Unix32 0x30009 True) (fresh 0)) ?m32
        = Some n1"
    and s1: "gpr n1 RSP = gpr ?m32 RSP - word_of_int (saved_bytes Unix32 0x30009 True)"
    and p: "\<forall>m2. gpr m2 RSP = gpr n1 RSP
                      \<and> (\<forall>a. unat (a - gpr n1 RSP) < nat (saved_bytes Unix32 0x30009 True)
                             \<longrightarrow> mem m2 a = mem n1 a)
                   \<longrightarrow> (\<exists>m3. run (written (ABI_PopRegistersAndAdjustStack Unix32 0x30009 True) (fresh 0)) m2
                               = Some m3
                          \<and> gpr m3 RSP = gpr ?m32 RSP
                          \<and> (\<forall>r\<in>set (selected_gprs 0x30009). gpr m3 (X64Reg r) = gpr ?m32 (X64Reg r))
                          \<and> (\<forall>x\<in>set (selected_xmms 0x30009).
                                 xmm m3 (X64Reg x) = xmm ?m32 (X64Reg x)))"
    by blast
  define n2 where "n2 = n1\<lparr>gpr := (gpr n1)(RAX := 0x99, RBX := 0), xmm := (\<lambda>x. 0x77)\<rparr>"
  have "gpr n2 RSP = gpr n1 RSP" "mem n2 = mem n1" by (simp_all add: n2_def)
  with p obtain n3 where
    r3: "run (written (ABI_PopRegistersAndAdjustStack Unix32 0x30009 True) (fresh 0)) n2 = Some n3"
    and g3: "gpr n3 RSP = gpr ?m32 RSP"
    and q3: "\<forall>r\<in>set (selected_gprs 0x30009). gpr n3 (X64Reg r) = gpr ?m32 (X64Reg r)"
    and x3: "\<forall>x\<in>set (selected_xmms 0x30009). xmm n3 (X64Reg x) = xmm ?m32 (X64Reg x)"
    by (metis (no_types, lifting))
  have second: "\<exists>m1 m3.
      run (written (ABI_PushRegistersAndAdjustStack Unix32 0x30009 True) (fresh 0)) ?m32 = Some m1
      \<and> gpr m1 RSP = 0x7FD0
      \<and> run (written (ABI_PopRegistersAndAdjustStack Unix32 0x30009 True) (fresh 0))
          (m1\<lparr>gpr := (gpr m1)(RAX := 0x99, RBX := 0), xmm := (\<lambda>x. 0x77)\<rparr>) = Some m3
      \<and> gpr m3 RSP = 0x7FFC \<and> gpr m3 RAX = 0x1111 \<and> gpr m3 RBX = 0x3333
      \<and> xmm m3 (X64Reg 0) = 0xAAAA \<and> xmm m3 (X64Reg 1) = 0xBBBB"
    using r1 s1 r3 g3 q3 x3
    by (intro exI[of _ n1] exI[of _ n3]) (simp add: n2_def sb32 selected_0x30009 machine_with_def)
  from first second show ?thesis by (rule conjI)
qed

text \<open>
  C4 as the spec words it, for every mask, fails. In a 32-bit build the mask \<open>0x100\<close> makes
  the save write a push of register 8, which 32-bit mode does not have, so the
  written instructions do not run. And the round trip depends on the stack
  pointer at the save: in a 64-bit build, a save of one vector register with
  \<open>noProlog = false\<close> from a stack pointer that is 8 modulo 16 stores the register
  at an address that is not a multiple of 16, where \<open>MOVAPD\<close> faults.
\<close>

theorem save_restore_needs_register_and_alignment:
  "written (ABI_PushRegistersAndAdjustStack Unix32 0x100 False) (fresh 0)
     = [PUSH R8, SUB 32 (R RSP) (Imm8 12)]
   \<and> run (written (ABI_PushRegistersAndAdjustStack Unix32 0x100 False) (fresh 0))
       (machine_with [(RSP, 0x8000)] :: 32 word machine) = None
   \<and> written (ABI_PushRegistersAndAdjustStack Win64 0x10000 False) (fresh 0)
     = [SUB 64 (R RSP) (Imm8 0x30), MOVAPD_store (MDisp RSP 0x20) (X64Reg 0)]
   \<and> run (written (ABI_PushRegistersAndAdjustStack Win64 0x10000 False) (fresh 0))
       (machine_with [(RSP, 0x7FF8)] :: 64 word machine) = None"
proof -
  have s1: "selected_gprs 0x100 = [8]" "selected_xmms 0x100 = []" by code_simp+
  have s2: "selected_gprs 0x10000 = []" "selected_xmms 0x10000 = [0]" by code_simp+
  have w1: "written (ABI_PushRegistersAndAdjustStack Unix32 0x100 False) (fresh 0)
     = [PUSH R8, SUB 32 (R RSP) (Imm8 12)]"
    by (simp add: written_def ABI_PushRegistersAndAdjustStack_emit_all push_instrs_def s1
        adjust_size_def shadow_space_def size_imm_def PUSH_nr_def)
  have w2: "written (ABI_PushRegistersAndAdjustStack Win64 0x10000 False) (fresh 0)
     = [SUB 64 (R RSP) (Imm8 0x30), MOVAPD_store (MDisp RSP 0x20) (X64Reg 0)]"
    by (simp add: written_def ABI_PushRegistersAndAdjustStack_emit_all push_instrs_def s2
        adjust_size_def shadow_space_def size_imm_def store_instr_def)
  have r1: "run [PUSH R8, SUB 32 (R RSP) (Imm8 12)] (machine_with [(RSP, 0x8000)] :: 32 word machine) = None"
    by simp
  have r2: "run [SUB 64 (R RSP) (Imm8 0x30), MOVAPD_store (MDisp RSP 0x20) (X64Reg 0)]
       (machine_with [(RSP, 0x7FF8)] :: 64 word machine) = None"
    by (simp add: machine_with_def width_ok_def)
  show ?thesis unfolding w1 w2 using r1 r2 by simp
qed

end
